theory Spec2Isabelle
  imports Complex_Main "HOL-Library.Sublist" "HOL-Library.Log_Nat"
begin

section \<open>Python values of the decoded API payloads\<close>

text \<open>
  \<open>Helper.py\<close> works on what \<open>requests.get(url).json()\<close> returns: trees of \<open>None\<close>,
  booleans, integers, floats, strings, lists and dictionaries. The model keeps the
  dynamic typing: one datatype of values, and every subscript, attribute access and
  arithmetic operation returns either a value or the exception Python raises.

  \<^item> Integers are unbounded (\<open>int\<close>). A float is represented by the rational number it
    denotes; \<open>nan\<close> and the infinities, which JSON does not have, are left out.
  \<^item> A string is the list of its characters (\<open>string\<close>), a \<open>char\<close> being a code point
    below 256: ASCII and Latin-1 text. \<open>str.lower\<close> is modelled on all of them.
  \<^item> A dictionary is an association list in insertion order; its keys are compared the
    way Python compares hashable values (\<open>1\<close>, \<open>1.0\<close> and \<open>True\<close> are one key).
  \<^item> The decoded payload is a tree: no two places share one dictionary object, so the
    in-place updates of the source are modelled on values.
\<close>

datatype error =
    KeyError | IndexError | TypeError | AttributeError | ValueError
  | OverflowError | ZeroDivisionError | RequestError

datatype json =
    JNull
  | JBool bool
  | JInt int
  | JFloat rat
  | JStr string
  | JList "json list"
  | JDict "(json \<times> json) list"

text \<open>The number a value denotes in a comparison (\<open>bool\<close> is a subclass of \<open>int\<close>).\<close>

definition num_of :: "json \<Rightarrow> rat option" where
  "num_of v = (case v of
       JBool b \<Rightarrow> Some (if b then 1 else 0)
     | JInt n \<Rightarrow> Some (of_int n)
     | JFloat q \<Rightarrow> Some q
     | _ \<Rightarrow> None)"

text \<open>\<open>==\<close> on \<open>None\<close>, numbers and strings: the values a dictionary can have as keys.\<close>

definition scalar_eq :: "json \<Rightarrow> json \<Rightarrow> bool" where
  "scalar_eq a b = (case a of
       JNull \<Rightarrow> b = JNull
     | JStr s \<Rightarrow> b = JStr s
     | _ \<Rightarrow> (case num_of a of
              None \<Rightarrow> False
            | Some x \<Rightarrow> (case num_of b of None \<Rightarrow> False | Some y \<Rightarrow> x = y)))"

definition hashable :: "json \<Rightarrow> bool" where
  "hashable k = (case k of JList _ \<Rightarrow> False | JDict _ \<Rightarrow> False | _ \<Rightarrow> True)"

text \<open>Looking a key up in a dictionary.\<close>

fun dict_find :: "(json \<times> json) list \<Rightarrow> json \<Rightarrow> json option" where
  "dict_find [] k = None"
| "dict_find ((k', v) # d) k = (if scalar_eq k' k then Some v else dict_find d k)"

text \<open>
  \<open>d[k] = v\<close>: an existing key keeps its place (and its key object), a new key goes to
  the end.
\<close>

fun dict_store :: "(json \<times> json) list \<Rightarrow> json \<Rightarrow> json \<Rightarrow> (json \<times> json) list" where
  "dict_store [] k v = [(k, v)]"
| "dict_store ((k', v') # d) k v =
     (if scalar_eq k' k then (k', v) # d else (k', v') # dict_store d k v)"

text \<open>
  Python's \<open>==\<close>. Lists are equal when they are equal element by element; dictionaries
  when they have as many keys and every key of the left one has an equal value in the
  right one; values of different kinds are different, except among numbers.
\<close>

function py_eq :: "json \<Rightarrow> json \<Rightarrow> bool" where
  "py_eq a b = (case a of
       JList xs \<Rightarrow> (case b of
           JList ys \<Rightarrow> length xs = length ys \<and> list_all (\<lambda>(x, y). py_eq x y) (zip xs ys)
         | _ \<Rightarrow> False)
     | JDict d \<Rightarrow> (case b of
           JDict e \<Rightarrow> length d = length e \<and>
             list_all (\<lambda>(k, v). case dict_find e k of
                  None \<Rightarrow> False
                | Some w \<Rightarrow> py_eq v w) d
         | _ \<Rightarrow> False)
     | _ \<Rightarrow> scalar_eq a b)"
  by pat_completeness auto
termination
proof (relation "measure (\<lambda>(a, b). size a)")
  show "wf (measure (\<lambda>(a, b). size a))" by simp
next
  fix a b x y :: json and xs ys :: "json list" and p :: "json \<times> json"
  assume "a = JList xs" "p \<in> set (zip xs ys)" "(x, y) = p"
  then have "x \<in> set xs" by (auto dest: set_zip_leftD)
  then have "size x < Suc (size_list size xs)"
    by (simp add: less_Suc_eq_le size_list_estimation')
  with \<open>a = JList xs\<close>
  show "((x, y), (a, b)) \<in> measure (\<lambda>(a, b). size a)" by simp
next
  fix a b k v w :: json and d e :: "(json \<times> json) list" and p :: "json \<times> json"
  assume "a = JDict d" "p \<in> set d" "(k, v) = p"
  then have "(k, v) \<in> set d" by simp
  then have "size_prod size size (k, v) \<le> size_list (size_prod size size) d"
    by (simp only: size_list_estimation')
  then show "((v, w), (a, b)) \<in> measure (\<lambda>(a, b). size a)"
    using \<open>a = JDict d\<close> by simp
qed

declare py_eq.simps [simp del]

text \<open>Truth value of a value in a condition (\<open>if x:\<close>, \<open>if not x:\<close>).\<close>

definition truthy :: "json \<Rightarrow> bool" where
  "truthy v = (case v of
       JNull \<Rightarrow> False
     | JBool b \<Rightarrow> b
     | JInt n \<Rightarrow> n \<noteq> 0
     | JFloat q \<Rightarrow> q \<noteq> 0
     | JStr s \<Rightarrow> s \<noteq> []
     | JList xs \<Rightarrow> xs \<noteq> []
     | JDict d \<Rightarrow> d \<noteq> [])"

text \<open>
  \<open>x[key]\<close> with a string key: a dictionary gives the value or raises \<open>KeyError\<close>; a list
  or a string takes integer indices only and every other value is not subscriptable
  (\<open>TypeError\<close>).
\<close>

definition getitem :: "json \<Rightarrow> string \<Rightarrow> error + json" where
  "getitem x key = (case x of
       JDict d \<Rightarrow> (case dict_find d (JStr key) of None \<Rightarrow> Inl KeyError | Some v \<Rightarrow> Inr v)
     | _ \<Rightarrow> Inl TypeError)"

text \<open>\<open>x[0]\<close>.\<close>

definition getitem0 :: "json \<Rightarrow> error + json" where
  "getitem0 x = (case x of
       JList xs \<Rightarrow> (case xs of [] \<Rightarrow> Inl IndexError | y # _ \<Rightarrow> Inr y)
     | JStr s \<Rightarrow> (case s of [] \<Rightarrow> Inl IndexError | c # _ \<Rightarrow> Inr (JStr [c]))
     | JDict d \<Rightarrow> (case dict_find d (JInt 0) of None \<Rightarrow> Inl KeyError | Some v \<Rightarrow> Inr v)
     | _ \<Rightarrow> Inl TypeError)"

text \<open>\<open>x[key] = v\<close> with a string key.\<close>

definition setitem :: "json \<Rightarrow> string \<Rightarrow> json \<Rightarrow> error + json" where
  "setitem x key v = (case x of
       JDict d \<Rightarrow> Inr (JDict (dict_store d (JStr key) v))
     | _ \<Rightarrow> Inl TypeError)"

text \<open>\<open>for y in x\<close>: the elements of a list, the keys of a dictionary, the characters of a string.\<close>

definition py_iter :: "json \<Rightarrow> error + json list" where
  "py_iter x = (case x of
       JList xs \<Rightarrow> Inr xs
     | JDict d \<Rightarrow> Inr (map fst d)
     | JStr s \<Rightarrow> Inr (map (\<lambda>c. JStr [c]) s)
     | _ \<Rightarrow> Inl TypeError)"

text \<open>
  \<open>x.lower()\<close>: only strings have the method. Among the code points below 256 the
  capital letters are \<open>A\<close> to \<open>Z\<close> (65 to 90) and the Latin-1 capitals 192 to 214 and 216
  to 222; the small letter of each is 32 code points further, and every other character
  is left as it is (so are the multiplication sign 215 and the sharp s 223).
\<close>

definition capital :: "char \<Rightarrow> bool" where
  "capital c = (let n = (of_char c :: nat) in
     (65 \<le> n \<and> n \<le> 90) \<or> (192 \<le> n \<and> n \<le> 214) \<or> (216 \<le> n \<and> n \<le> 222))"

definition lower_char :: "char \<Rightarrow> char" where
  "lower_char c = (if capital c then char_of ((of_char c :: nat) + 32) else c)"

definition py_lower :: "json \<Rightarrow> error + string" where
  "py_lower x = (case x of JStr s \<Rightarrow> Inr (map lower_char s) | _ \<Rightarrow> Inl AttributeError)"

text \<open>\<open>s.replace(old, new)\<close> for a non-empty \<open>old\<close>: every occurrence, from the left.\<close>

fun replace_all :: "string \<Rightarrow> string \<Rightarrow> string \<Rightarrow> string" where
  "replace_all old new [] = []"
| "replace_all old new (c # cs) =
     (if old \<noteq> [] \<and> prefix old (c # cs)
      then new @ replace_all old new (drop (length old) (c # cs))
      else c # replace_all old new cs)"

definition py_replace :: "json \<Rightarrow> string \<Rightarrow> string \<Rightarrow> error + json" where
  "py_replace x old new = (case x of
       JStr s \<Rightarrow> Inr (JStr (replace_all old new s))
     | _ \<Rightarrow> Inl AttributeError)"

section \<open>Lookups\<close>

text \<open>
  \<open>getEntryById\<close>: \<open>next((e for e in entries if e['entryId'] == entryId), None)\<close>.
  The generator is consumed up to the first match only.
\<close>

fun getEntryById :: "json list \<Rightarrow> json \<Rightarrow> error + json" where
  "getEntryById [] entryId = Inr JNull"
| "getEntryById (e # entries) entryId =
     (case getitem e ''entryId'' of
        Inl err \<Rightarrow> Inl err
      | Inr v \<Rightarrow> if py_eq v entryId then Inr e else getEntryById entries entryId)"

text \<open>
  \<open>getStageId\<close>. The two comprehensions
  \<open>[s['stageId'] for s in stages if s[typ] == sname]\<close> and
  \<open>[s['stageId'] for s in stages if sname.lower() in s[typ].lower()]\<close>
  run over the whole list before the first element of the result is taken.
\<close>

fun stageIds_eq :: "json list \<Rightarrow> string \<Rightarrow> json \<Rightarrow> error + json list" where
  "stageIds_eq [] typ sname = Inr []"
| "stageIds_eq (s # stages) typ sname =
     (case getitem s typ of
        Inl err \<Rightarrow> Inl err
      | Inr c \<Rightarrow>
          if py_eq c sname
          then (case getitem s ''stageId'' of
                  Inl err \<Rightarrow> Inl err
                | Inr i \<Rightarrow> (case stageIds_eq stages typ sname of
                             Inl err \<Rightarrow> Inl err
                           | Inr ids \<Rightarrow> Inr (i # ids)))
          else stageIds_eq stages typ sname)"

text \<open>The test \<open>sname.lower() in s[typ].lower()\<close>, the left operand first.\<close>

fun stageIds_in :: "json list \<Rightarrow> string \<Rightarrow> json \<Rightarrow> error + json list" where
  "stageIds_in [] typ sname = Inr []"
| "stageIds_in (s # stages) typ sname =
     (case py_lower sname of
        Inl err \<Rightarrow> Inl err
      | Inr q \<Rightarrow>
         (case getitem s typ of
            Inl err \<Rightarrow> Inl err
          | Inr c \<Rightarrow>
             (case py_lower c of
                Inl err \<Rightarrow> Inl err
              | Inr n \<Rightarrow>
                  if sublist q n
                  then (case getitem s ''stageId'' of
                          Inl err \<Rightarrow> Inl err
                        | Inr i \<Rightarrow> (case stageIds_in stages typ sname of
                                     Inl err \<Rightarrow> Inl err
                                   | Inr ids \<Rightarrow> Inr (i # ids)))
                  else stageIds_in stages typ sname)))"

text \<open>\<open>if len(sId) > 0: return sId[0]\<close>, \<open>else: return None\<close>.\<close>

definition first_or_None :: "json list \<Rightarrow> json" where
  "first_or_None xs = (if length xs > 0 then hd xs else JNull)"

definition getStageId :: "json list \<Rightarrow> json \<Rightarrow> string \<Rightarrow> error + json" where
  "getStageId stages sname typ =
     (if typ = ''code''
      then (case stageIds_eq stages typ sname of
              Inl err \<Rightarrow> Inl err
            | Inr sId \<Rightarrow> Inr (first_or_None sId))
      else (case stageIds_in stages typ sname of
              Inl err \<Rightarrow> Inl err
            | Inr sId \<Rightarrow> Inr (first_or_None sId)))"


fun getitems :: "json list \<Rightarrow> string \<Rightarrow> error + json list" where
  "getitems [] key = Inr []"
| "getitems (x # xs) key =
     (case getitem x key of
        Inl err \<Rightarrow> Inl err
      | Inr v \<Rightarrow> (case getitems xs key of Inl err \<Rightarrow> Inl err | Inr vs \<Rightarrow> Inr (v # vs)))"


text \<open>
  \<open>getStageInfo\<close>. The guard is \<open>len(stage) < 0\<close>, as in the source; \<open>stage[0]\<close> on the
  empty list raises \<open>IndexError\<close>.
\<close>

fun filter_eq :: "json list \<Rightarrow> string \<Rightarrow> json \<Rightarrow> error + json list" where
  "filter_eq [] typ sid = Inr []"
| "filter_eq (s # stages) typ sid =
     (case getitem s typ of
        Inl err \<Rightarrow> Inl err
      | Inr c \<Rightarrow> (case filter_eq stages typ sid of
                   Inl err \<Rightarrow> Inl err
                 | Inr ss \<Rightarrow> Inr (if py_eq c sid then s # ss else ss)))"

definition stage_info :: "json \<Rightarrow> bool \<Rightarrow> error + json" where
  "stage_info stage clean =
     (case getitem stage ''name'' of
        Inl err \<Rightarrow> Inl err
      | Inr n \<Rightarrow>
         (case (if clean then py_replace n '' (Live TV)'' [] else Inr n) of
            Inl err \<Rightarrow> Inl err
          | Inr n' \<Rightarrow>
             (case getitem stage ''distance'' of
                Inl err \<Rightarrow> Inl err
              | Inr d \<Rightarrow> Inr (JDict [(JStr ''name'', n'), (JStr ''distance'', d)]))))"

definition getStageInfo :: "json list \<Rightarrow> json \<Rightarrow> string \<Rightarrow> bool \<Rightarrow> error + json" where
  "getStageInfo stages sid typ clean =
     (case filter_eq stages typ sid of
        Inl err \<Rightarrow> Inl err
      | Inr stage \<Rightarrow>
          if int (length stage) < 0 then Inr JNull
          else (case stage of
                  [] \<Rightarrow> Inl IndexError
                | stage0 # _ \<Rightarrow> stage_info stage0 clean))"

section \<open>Itinerary traversal\<close>

text \<open>\<open>getSections\<close>: \<open>[i['itinerarySections'] for i in itinerary]\<close>.\<close>

definition getSections :: "json list \<Rightarrow> error + json list" where
  "getSections itinerary = getitems itinerary ''itinerarySections''"

text \<open>
  The innermost loop of \<open>getControls\<close> and \<open>getStages\<close>, for the children of one
  section \<open>s\<close>:
  \<^verbatim>\<open>
      stage['itinerarySectionId'] = s['itinerarySectionId']
      stages.append(stage)
  \<close>
  The right-hand side is evaluated before the store.
\<close>

fun annotate_children :: "json list \<Rightarrow> json \<Rightarrow> error + json list" where
  "annotate_children [] s = Inr []"
| "annotate_children (child # children) s =
     (case getitem s ''itinerarySectionId'' of
        Inl err \<Rightarrow> Inl err
      | Inr sid \<Rightarrow>
         (case setitem child ''itinerarySectionId'' sid of
            Inl err \<Rightarrow> Inl err
          | Inr child' \<Rightarrow>
             (case annotate_children children s of
                Inl err \<Rightarrow> Inl err
              | Inr rest \<Rightarrow> Inr (child' # rest))))"

text \<open>\<open>for s in section: for stage in s[key]: ...\<close>\<close>

fun flatten_section :: "json list \<Rightarrow> string \<Rightarrow> error + json list" where
  "flatten_section [] key = Inr []"
| "flatten_section (s # ss) key =
     (case getitem s key of
        Inl err \<Rightarrow> Inl err
      | Inr cs \<Rightarrow>
         (case py_iter cs of
            Inl err \<Rightarrow> Inl err
          | Inr children \<Rightarrow>
             (case annotate_children children s of
                Inl err \<Rightarrow> Inl err
              | Inr out \<Rightarrow>
                 (case flatten_section ss key of
                    Inl err \<Rightarrow> Inl err
                  | Inr rest \<Rightarrow> Inr (out @ rest)))))"

text \<open>\<open>for section in sections: ...\<close>\<close>

fun flatten_sections :: "json list \<Rightarrow> string \<Rightarrow> error + json list" where
  "flatten_sections [] key = Inr []"
| "flatten_sections (section # sections) key =
     (case py_iter section of
        Inl err \<Rightarrow> Inl err
      | Inr ss \<Rightarrow>
         (case flatten_section ss key of
            Inl err \<Rightarrow> Inl err
          | Inr out \<Rightarrow>
             (case flatten_sections sections key of
                Inl err \<Rightarrow> Inl err
              | Inr rest \<Rightarrow> Inr (out @ rest))))"

definition getControls :: "json list \<Rightarrow> error + json list" where
  "getControls sections = flatten_sections sections ''controls''"

definition getStages :: "json list \<Rightarrow> error + json list" where
  "getStages sections = flatten_sections sections ''stages''"

text \<open>
  \<open>getStartListId\<close>. The search for the section does not stop at the first match: the
  variable \<open>itineraryLegId\<close> is overwritten by every matching section.
\<close>

fun leg_of_section :: "json list \<Rightarrow> json \<Rightarrow> json \<Rightarrow> error + json" where
  "leg_of_section [] itinerarySectionId itineraryLegId = Inr itineraryLegId"
| "leg_of_section (s # ss) itinerarySectionId itineraryLegId =
     (case getitem s ''itinerarySectionId'' of
        Inl err \<Rightarrow> Inl err
      | Inr sid \<Rightarrow>
          if py_eq sid itinerarySectionId
          then (case getitem s ''itineraryLegId'' of
                  Inl err \<Rightarrow> Inl err
                | Inr leg \<Rightarrow> leg_of_section ss itinerarySectionId leg)
          else leg_of_section ss itinerarySectionId itineraryLegId)"

fun leg_of_sections :: "json list \<Rightarrow> json \<Rightarrow> json \<Rightarrow> error + json" where
  "leg_of_sections [] itinerarySectionId itineraryLegId = Inr itineraryLegId"
| "leg_of_sections (section # sections) itinerarySectionId itineraryLegId =
     (case py_iter section of
        Inl err \<Rightarrow> Inl err
      | Inr ss \<Rightarrow>
         (case leg_of_section ss itinerarySectionId itineraryLegId of
            Inl err \<Rightarrow> Inl err
          | Inr leg \<Rightarrow> leg_of_sections sections itinerarySectionId leg))"

text \<open>
  \<open>next((item["startListId"] for item in itinerary if item['itineraryLegId'] == itineraryLegId), None)\<close>
\<close>

fun startList_of_leg :: "json list \<Rightarrow> json \<Rightarrow> error + json" where
  "startList_of_leg [] itineraryLegId = Inr JNull"
| "startList_of_leg (item # itinerary) itineraryLegId =
     (case getitem item ''itineraryLegId'' of
        Inl err \<Rightarrow> Inl err
      | Inr leg \<Rightarrow>
          if py_eq leg itineraryLegId then getitem item ''startListId''
          else startList_of_leg itinerary itineraryLegId)"

definition getStartListId :: "json list \<Rightarrow> json \<Rightarrow> error + json" where
  "getStartListId itinerary itinerarySectionId =
     (case getSections itinerary of
        Inl err \<Rightarrow> Inl err
      | Inr sections \<Rightarrow>
         (case leg_of_sections sections itinerarySectionId JNull of
            Inl err \<Rightarrow> Inl err
          | Inr itineraryLegId \<Rightarrow>
              if \<not> truthy itineraryLegId then Inr JNull
              else startList_of_leg itinerary itineraryLegId))"

section \<open>Entries\<close>

text \<open>Sequencing of two steps, the first of which may raise.\<close>

definition ebind :: "error + 'a \<Rightarrow> ('a \<Rightarrow> error + 'b) \<Rightarrow> error + 'b" where
  "ebind m f = (case m of Inl err \<Rightarrow> Inl err | Inr v \<Rightarrow> f v)"

text \<open>\<open>{key: entry[key] for key in keys}\<close>\<close>

fun project_keys :: "json \<Rightarrow> string list \<Rightarrow> (json \<times> json) list \<Rightarrow> error + (json \<times> json) list" where
  "project_keys entry [] newEntry = Inr newEntry"
| "project_keys entry (key # keys) newEntry =
     ebind (getitem entry key)
       (\<lambda>v. project_keys entry keys (dict_store newEntry (JStr key) v))"

text \<open>\<open>entry[a][b]\<close>\<close>

definition getitem2 :: "json \<Rightarrow> string \<Rightarrow> string \<Rightarrow> error + json" where
  "getitem2 entry a b = ebind (getitem entry a) (\<lambda>x. getitem x b)"

text \<open>
  \<open>getCarDataFromEntry\<close>: the six copied keys, then the nine assignments in the order
  of the source.
\<close>

definition getCarDataFromEntry :: "json \<Rightarrow> error + json" where
  "getCarDataFromEntry entry =
     ebind (project_keys entry
              [''entryId'', ''driverId'', ''codriverId'', ''manufacturerId'',
               ''vehicleModel'', ''eligibility''] []) (\<lambda>e0.
     ebind (ebind (ebind (getitem entry ''eventClasses'') getitem0) (\<lambda>c. getitem c ''name'')) (\<lambda>v1.
     ebind (getitem2 entry ''manufacturer'' ''name'') (\<lambda>v2.
     ebind (getitem2 entry ''entrant'' ''name'') (\<lambda>v3.
     ebind (getitem2 entry ''group'' ''name'') (\<lambda>v4.
     ebind (getitem2 entry ''driver'' ''abbvName'') (\<lambda>v5.
     ebind (getitem2 entry ''driver'' ''fullName'') (\<lambda>v6.
     ebind (getitem2 entry ''codriver'' ''abbvName'') (\<lambda>v7.
     ebind (getitem2 entry ''codriver'' ''fullName'') (\<lambda>v8.
     ebind (getitem2 entry ''driver'' ''code'') (\<lambda>v9.
       Inr (JDict
         (dict_store (dict_store (dict_store (dict_store (dict_store
         (dict_store (dict_store (dict_store (dict_store e0
            (JStr ''classname'') v1)
            (JStr ''manufacturer'') v2)
            (JStr ''entrantname'') v3)
            (JStr ''groupname'') v4)
            (JStr ''drivername'') v5)
            (JStr ''driverfullname'') v6)
            (JStr ''codrivername'') v7)
            (JStr ''codriverfullname'') v8)
            (JStr ''code'') v9))))))))))))"

section \<open>Floats and true division\<close>

text \<open>
  \<open>x / 1000\<close> is Python's true division: the result is the float (IEEE 754 binary64)
  nearest to the exact quotient, ties to even; an integer quotient beyond the range of
  the floats raises \<open>OverflowError\<close>.
\<close>

text \<open>For \<open>x > 0\<close>, the integer \<open>k\<close> with \<open>2 ^ k \<le> x < 2 ^ (k + 1)\<close>.\<close>

definition floor_log2 :: "rat \<Rightarrow> int" where
  "floor_log2 x = (case quotient_of x of (p, q) \<Rightarrow>
     (let k = bitlen p - bitlen q in if 2 powi k \<le> x then k else k - 1))"

definition round_half_even :: "rat \<Rightarrow> int" where
  "round_half_even x = (let f = \<lfloor>x\<rfloor>; d = x - of_int f in
     if d < 1 / 2 then f else if 1 / 2 < d then f + 1 else if even f then f else f + 1)"

text \<open>
  The binary64 value nearest to a rational: 53 significant bits, least exponent
  \<open>- 1074\<close>; \<open>None\<close> when the rounded value reaches \<open>2 ^ 1024\<close>.
\<close>

definition binary64 :: "rat \<Rightarrow> rat option" where
  "binary64 x = (if x = 0 then Some 0 else
     (let a = \<bar>x\<bar>;
          e = max (floor_log2 a - 52) (- 1074);
          r = of_int (round_half_even (a / 2 powi e)) * 2 powi e
      in if 2 ^ 1024 \<le> r then None else Some (sgn x * r)))"

definition py_truediv :: "json \<Rightarrow> int \<Rightarrow> error + json" where
  "py_truediv x d = (case num_of x of
       None \<Rightarrow> Inl TypeError
     | Some q \<Rightarrow>
         if d = 0 then Inl ZeroDivisionError
         else (case binary64 (q / of_int d) of
                 None \<Rightarrow> Inl OverflowError
               | Some r \<Rightarrow> Inr (JFloat r)))"

section \<open>Wide pivots\<close>

text \<open>
  The first loop of the three pivot functions:
  \<^verbatim>\<open>
      entries = []
      for stage in multiStageTimes:
          if stage['entryId'] not in entries:
              entries.append(stage['entryId'])
  \<close>
\<close>

fun collect_entries :: "json list \<Rightarrow> json list \<Rightarrow> error + json list" where
  "collect_entries [] entries = Inr entries"
| "collect_entries (stage # multiStageTimes) entries =
     (case getitem stage ''entryId'' of
        Inl err \<Rightarrow> Inl err
      | Inr entryId \<Rightarrow>
          if \<not> list_ex (\<lambda>e. py_eq entryId e) entries
          then collect_entries multiStageTimes (entries @ [entryId])
          else collect_entries multiStageTimes entries)"

text \<open>\<open>newEntry[key] = value\<close> where the key is a value of the payload.\<close>

definition dict_setitem :: "(json \<times> json) list \<Rightarrow> json \<Rightarrow> json \<Rightarrow> error + (json \<times> json) list" where
  "dict_setitem d k v = (if hashable k then Inr (dict_store d k v) else Inl TypeError)"

text \<open>
  The inner loop of \<open>getMultiStageTimesWide\<close> for one entry:
  \<^verbatim>\<open>
      for stage in multiStageTimes:
          if stage["entryId"] == entry:
              if stage['elapsedDurationMs']:
                  newEntry[stage['stageId']] = stage['elapsedDurationMs'] / 1000
              else:
                  newEntry[stage['stageId']] = 0
  \<close>
\<close>

fun times_row :: "json list \<Rightarrow> json \<Rightarrow> (json \<times> json) list \<Rightarrow> error + (json \<times> json) list" where
  "times_row [] entry newEntry = Inr newEntry"
| "times_row (stage # multiStageTimes) entry newEntry =
     (case getitem stage ''entryId'' of
        Inl err \<Rightarrow> Inl err
      | Inr entryId \<Rightarrow>
          if py_eq entryId entry
          then (case (case getitem stage ''elapsedDurationMs'' of
                        Inl err \<Rightarrow> Inl err
                      | Inr c \<Rightarrow>
                          if truthy c
                          then (case getitem stage ''elapsedDurationMs'' of
                                  Inl err \<Rightarrow> Inl err
                                | Inr ms \<Rightarrow> py_truediv ms 1000)
                          else Inr (JInt 0)) of
                  Inl err \<Rightarrow> Inl err
                | Inr v \<Rightarrow>
                   (case getitem stage ''stageId'' of
                      Inl err \<Rightarrow> Inl err
                    | Inr stageId \<Rightarrow>
                       (case dict_setitem newEntry stageId v of
                          Inl err \<Rightarrow> Inl err
                        | Inr newEntry' \<Rightarrow> times_row multiStageTimes entry newEntry')))
          else times_row multiStageTimes entry newEntry)"

text \<open>
  The outer loop:
  \<^verbatim>\<open>
      for entry in entries:
          newEntry = {"entryId": entry}
          ...
          final.append(newEntry)
  \<close>
\<close>

fun times_rows :: "json list \<Rightarrow> json list \<Rightarrow> error + json list" where
  "times_rows [] multiStageTimes = Inr []"
| "times_rows (entry # entries) multiStageTimes =
     (case times_row multiStageTimes entry [(JStr ''entryId'', entry)] of
        Inl err \<Rightarrow> Inl err
      | Inr newEntry \<Rightarrow>
         (case times_rows entries multiStageTimes of
            Inl err \<Rightarrow> Inl err
          | Inr final \<Rightarrow> Inr (JDict newEntry # final)))"

definition getMultiStageTimesWide :: "json list \<Rightarrow> error + json list" where
  "getMultiStageTimesWide multiStageTimes =
     (case collect_entries multiStageTimes [] of
        Inl err \<Rightarrow> Inl err
      | Inr entries \<Rightarrow> times_rows entries multiStageTimes)"

text \<open>
  \<open>getMultiStagePositionsWide\<close>: the same loops, with
  \<open>newEntry[stage['stageId']] = stage['position']\<close>.
\<close>

fun positions_row :: "json list \<Rightarrow> json \<Rightarrow> (json \<times> json) list \<Rightarrow> error + (json \<times> json) list" where
  "positions_row [] entry newEntry = Inr newEntry"
| "positions_row (stage # multiStagePositions) entry newEntry =
     (case getitem stage ''entryId'' of
        Inl err \<Rightarrow> Inl err
      | Inr entryId \<Rightarrow>
          if py_eq entryId entry
          then (case getitem stage ''position'' of
                  Inl err \<Rightarrow> Inl err
                | Inr v \<Rightarrow>
                   (case getitem stage ''stageId'' of
                      Inl err \<Rightarrow> Inl err
                    | Inr stageId \<Rightarrow>
                       (case dict_setitem newEntry stageId v of
                          Inl err \<Rightarrow> Inl err
                        | Inr newEntry' \<Rightarrow> positions_row multiStagePositions entry newEntry')))
          else positions_row multiStagePositions entry newEntry)"

fun positions_rows :: "json list \<Rightarrow> json list \<Rightarrow> error + json list" where
  "positions_rows [] multiStagePositions = Inr []"
| "positions_rows (entry # entries) multiStagePositions =
     (case positions_row multiStagePositions entry [(JStr ''entryId'', entry)] of
        Inl err \<Rightarrow> Inl err
      | Inr newEntry \<Rightarrow>
         (case positions_rows entries multiStagePositions of
            Inl err \<Rightarrow> Inl err
          | Inr final \<Rightarrow> Inr (JDict newEntry # final)))"

definition getMultiStagePositionsWide :: "json list \<Rightarrow> error + json list" where
  "getMultiStagePositionsWide multiStagePositions =
     (case collect_entries multiStagePositions [] of
        Inl err \<Rightarrow> Inl err
      | Inr entries \<Rightarrow> positions_rows entries multiStagePositions)"

text \<open>
  \<open>getMultiStageGenericWide\<close>:
  \<^verbatim>\<open>
      if stageKey == 'elapsedDurationMs':
          if stage[stageKey]:
              newEntry[stage['stageId']] = stage['elapsedDurationMs'] / 1000
          else:
              newEntry[stage['stageId']] = 0
      else:
          newEntry[stage['stageId']] = stage[stageKey]
  \<close>
\<close>

fun generic_row :: "json list \<Rightarrow> string \<Rightarrow> json \<Rightarrow> (json \<times> json) list \<Rightarrow> error + (json \<times> json) list" where
  "generic_row [] stageKey entry newEntry = Inr newEntry"
| "generic_row (stage # multiStageTimes) stageKey entry newEntry =
     (case getitem stage ''entryId'' of
        Inl err \<Rightarrow> Inl err
      | Inr entryId \<Rightarrow>
          if py_eq entryId entry
          then (case (if stageKey = ''elapsedDurationMs''
                      then (case getitem stage stageKey of
                              Inl err \<Rightarrow> Inl err
                            | Inr c \<Rightarrow>
                                if truthy c
                                then (case getitem stage ''elapsedDurationMs'' of
                                        Inl err \<Rightarrow> Inl err
                                      | Inr ms \<Rightarrow> py_truediv ms 1000)
                                else Inr (JInt 0))
                      else getitem stage stageKey) of
                  Inl err \<Rightarrow> Inl err
                | Inr v \<Rightarrow>
                   (case getitem stage ''stageId'' of
                      Inl err \<Rightarrow> Inl err
                    | Inr stageId \<Rightarrow>
                       (case dict_setitem newEntry stageId v of
                          Inl err \<Rightarrow> Inl err
                        | Inr newEntry' \<Rightarrow> generic_row multiStageTimes stageKey entry newEntry')))
          else generic_row multiStageTimes stageKey entry newEntry)"

fun generic_rows :: "json list \<Rightarrow> json list \<Rightarrow> string \<Rightarrow> error + json list" where
  "generic_rows [] multiStageTimes stageKey = Inr []"
| "generic_rows (entry # entries) multiStageTimes stageKey =
     (case generic_row multiStageTimes stageKey entry [(JStr ''entryId'', entry)] of
        Inl err \<Rightarrow> Inl err
      | Inr newEntry \<Rightarrow>
         (case generic_rows entries multiStageTimes stageKey of
            Inl err \<Rightarrow> Inl err
          | Inr final \<Rightarrow> Inr (JDict newEntry # final)))"

definition getMultiStageGenericWide :: "json list \<Rightarrow> string \<Rightarrow> error + json list" where
  "getMultiStageGenericWide multiStageTimes stageKey =
     (case collect_entries multiStageTimes [] of
        Inl err \<Rightarrow> Inl err
      | Inr entries \<Rightarrow> generic_rows entries multiStageTimes stageKey)"

section \<open>Fetching results\<close>

text \<open>
  \<open>requests.get(url).json()\<close> is the one effect of the program. It is a parameter of the
  model: a function from the state of the world (the network and the server) and the URL
  to the decoded body, or the exception of the transport or the decoder, and the state
  after the request.
\<close>

type_synonym 'w http = "'w \<Rightarrow> string \<Rightarrow> (error + json) \<times> 'w"

definition results_api :: string where
  "results_api = ''https://api.wrc.com/results-api''"

text \<open>\<open>str(n)\<close> for an integer: decimal digits, with a minus sign when negative.\<close>

definition digit_char :: "nat \<Rightarrow> char" where
  "digit_char d = char_of (48 + d)"

fun str_nat :: "nat \<Rightarrow> string" where
  "str_nat n = (if n < 10 then [digit_char n] else str_nat (n div 10) @ [digit_char (n mod 10)])"

declare str_nat.simps [simp del]

definition str_int :: "int \<Rightarrow> string" where
  "str_int i = (if i < 0 then CHR ''-'' # str_nat (nat (- i)) else str_nat (nat i))"

definition stage_times_url :: "int \<Rightarrow> int \<Rightarrow> string" where
  "stage_times_url eventId stageId =
     results_api @ ''/rally-event/'' @ str_int eventId @ ''/stage-times/stage-external/'' @ str_int stageId"

definition overall_url :: "int \<Rightarrow> int \<Rightarrow> string" where
  "overall_url eventId stageId =
     results_api @ ''/rally-event/'' @ str_int eventId @ ''/stage-result/stage-external/'' @ str_int stageId"

definition getStageTimes :: "'w http \<Rightarrow> int \<Rightarrow> int \<Rightarrow> 'w \<Rightarrow> (error + json) \<times> 'w" where
  "getStageTimes get eventId stageId w = get w (stage_times_url eventId stageId)"

text \<open>
  \<open>dict(pos, **{'stageId': stageId})\<close>: a copy of the mapping \<open>pos\<close> (or the dictionary
  built from an iterable of key-value pairs) with the key \<open>stageId\<close> set.
\<close>

fun dict_of_pairs :: "json list \<Rightarrow> (json \<times> json) list \<Rightarrow> error + (json \<times> json) list" where
  "dict_of_pairs [] d = Inr d"
| "dict_of_pairs (item # items) d =
     (case py_iter item of
        Inl err \<Rightarrow> Inl err
      | Inr kv \<Rightarrow>
         (case kv of
            [k, v] \<Rightarrow> (case dict_setitem d k v of
                         Inl err \<Rightarrow> Inl err
                       | Inr d' \<Rightarrow> dict_of_pairs items d')
          | _ \<Rightarrow> Inl ValueError))"

definition py_dict :: "json \<Rightarrow> error + (json \<times> json) list" where
  "py_dict x = (case x of
       JDict d \<Rightarrow> Inr d
     | _ \<Rightarrow> (case py_iter x of Inl err \<Rightarrow> Inl err | Inr items \<Rightarrow> dict_of_pairs items []))"

definition with_stageId :: "json \<Rightarrow> int \<Rightarrow> error + json" where
  "with_stageId pos stageId = (case py_dict pos of
       Inl err \<Rightarrow> Inl err
     | Inr d \<Rightarrow> Inr (JDict (dict_store d (JStr ''stageId'') (JInt stageId))))"

text \<open>\<open>[dict(pos, **{'stageId':stageId}) for pos in overall]\<close>\<close>

fun with_stageId_all :: "json list \<Rightarrow> int \<Rightarrow> error + json list" where
  "with_stageId_all [] stageId = Inr []"
| "with_stageId_all (pos # overall) stageId =
     (case with_stageId pos stageId of
        Inl err \<Rightarrow> Inl err
      | Inr p \<Rightarrow> (case with_stageId_all overall stageId of
                   Inl err \<Rightarrow> Inl err
                 | Inr ps \<Rightarrow> Inr (p # ps)))"

definition getOverallResult :: "'w http \<Rightarrow> int \<Rightarrow> int \<Rightarrow> 'w \<Rightarrow> (error + json list) \<times> 'w" where
  "getOverallResult get eventId stageId w =
     (case get w (overall_url eventId stageId) of
        (Inl err, w') \<Rightarrow> (Inl err, w')
      | (Inr overall, w') \<Rightarrow>
          (case py_iter overall of
             Inl err \<Rightarrow> (Inl err, w')
           | Inr ps \<Rightarrow> (with_stageId_all ps stageId, w')))"

text \<open>
  \<open>resultList = [self.getOverallResult(eventId, stage) for stage in stageList]\<close>:
  one request after the other; an exception ends the comprehension.
\<close>

fun overall_results :: "'w http \<Rightarrow> int \<Rightarrow> int list \<Rightarrow> 'w \<Rightarrow> (error + json list list) \<times> 'w" where
  "overall_results get eventId [] w = (Inr [], w)"
| "overall_results get eventId (stage # stageList) w =
     (case getOverallResult get eventId stage w of
        (Inl err, w') \<Rightarrow> (Inl err, w')
      | (Inr res, w') \<Rightarrow>
          (case overall_results get eventId stageList w' of
             (Inl err, w'') \<Rightarrow> (Inl err, w'')
           | (Inr resultList, w'') \<Rightarrow> (Inr (res # resultList), w'')))"

text \<open>
  \<^verbatim>\<open>
      final = []
      for res in resultList:
          for pos in res:
              final.append(pos)
  \<close>
  In \<open>getMultipleOverall\<close> every \<open>res\<close> is a list built by \<open>getOverallResult\<close>.
\<close>

definition getMultipleOverall :: "'w http \<Rightarrow> int \<Rightarrow> int list \<Rightarrow> 'w \<Rightarrow> (error + json list) \<times> 'w" where
  "getMultipleOverall get eventId stageList w =
     (case overall_results get eventId stageList w of
        (Inl err, w') \<Rightarrow> (Inl err, w')
      | (Inr resultList, w') \<Rightarrow> (Inr (concat resultList), w'))"

text \<open>\<open>resultList = [self.getStageTimes(eventId, stage) for stage in stageList]\<close>\<close>

fun stage_times_results :: "'w http \<Rightarrow> int \<Rightarrow> int list \<Rightarrow> 'w \<Rightarrow> (error + json list) \<times> 'w" where
  "stage_times_results get eventId [] w = (Inr [], w)"
| "stage_times_results get eventId (stage # stageList) w =
     (case getStageTimes get eventId stage w of
        (Inl err, w') \<Rightarrow> (Inl err, w')
      | (Inr res, w') \<Rightarrow>
          (case stage_times_results get eventId stageList w' of
             (Inl err, w'') \<Rightarrow> (Inl err, w'')
           | (Inr resultList, w'') \<Rightarrow> (Inr (res # resultList), w'')))"

text \<open>In \<open>getMultipleStageTimes\<close> every \<open>res\<close> is a decoded body, iterated as it is.\<close>

fun flatten_results :: "json list \<Rightarrow> error + json list" where
  "flatten_results [] = Inr []"
| "flatten_results (res # resultList) =
     (case py_iter res of
        Inl err \<Rightarrow> Inl err
      | Inr ps \<Rightarrow> (case flatten_results resultList of
                    Inl err \<Rightarrow> Inl err
                  | Inr final \<Rightarrow> Inr (ps @ final)))"

definition getMultipleStageTimes :: "'w http \<Rightarrow> int \<Rightarrow> int list \<Rightarrow> 'w \<Rightarrow> (error + json list) \<times> 'w" where
  "getMultipleStageTimes get eventId stageList w =
     (case stage_times_results get eventId stageList w of
        (Inl err, w') \<Rightarrow> (Inl err, w')
      | (Inr resultList, w') \<Rightarrow> (flatten_results resultList, w'))"

section \<open>Vocabulary of the properties\<close>

text \<open>\<open>x.get(key)\<close>: the value under a key, \<open>None\<close> when there is none.\<close>

definition get_or_None :: "json \<Rightarrow> string \<Rightarrow> json" where
  "get_or_None x key = (case getitem x key of Inr v \<Rightarrow> v | Inl _ \<Rightarrow> JNull)"

text \<open>\<open>x\<close> is a dictionary with the key.\<close>

definition has_key :: "json \<Rightarrow> string \<Rightarrow> bool" where
  "has_key x key = (case getitem x key of Inr _ \<Rightarrow> True | Inl _ \<Rightarrow> False)"


text \<open>The value under the key is equal (\<open>==\<close>) to \<open>v\<close>.\<close>

definition field_eq :: "json \<Rightarrow> string \<Rightarrow> json \<Rightarrow> bool" where
  "field_eq x key v = (case getitem x key of Inr c \<Rightarrow> py_eq c v | Inl _ \<Rightarrow> False)"






text \<open>The elements of a list in the order of their first occurrence, each once.\<close>

definition first_occurrences :: "'a list \<Rightarrow> 'a list" where
  "first_occurrences xs = rev (remdups (rev xs))"

definition is_int :: "json \<Rightarrow> bool" where
  "is_int v = (case v of JInt _ \<Rightarrow> True | _ \<Rightarrow> False)"

text \<open>
  A stage-time record: a dictionary with integer \<open>entryId\<close> and \<open>stageId\<close>, and an
  \<open>elapsedDurationMs\<close> that is \<open>None\<close> or an integer (of a magnitude below \<open>2 ^ 1023\<close>,
  so that the quotient by 1000 is in the range of the floats).
\<close>

definition stage_time_record :: "json \<Rightarrow> bool" where
  "stage_time_record r =
     (is_int (get_or_None r ''entryId'') \<and> is_int (get_or_None r ''stageId'') \<and>
      (case getitem r ''elapsedDurationMs'' of
         Inr JNull \<Rightarrow> True
       | Inr (JInt ms) \<Rightarrow> \<bar>ms\<bar> < 2 ^ 1023
       | _ \<Rightarrow> False))"

text \<open>
  The cell of the wide table for an elapsed duration: the float nearest to the
  milliseconds divided by 1000, and the integer \<open>0\<close> for \<open>None\<close> (and for 0 milliseconds).
\<close>

definition seconds :: "json \<Rightarrow> json" where
  "seconds ms = (case ms of
       JInt n \<Rightarrow> (if n = 0 then JInt 0
                  else (case binary64 (of_int n / 1000) of Some q \<Rightarrow> JFloat q | None \<Rightarrow> JNull))
     | _ \<Rightarrow> JInt 0)"

text \<open>
  The row of the wide table for the entry \<open>e\<close>: the column \<open>entryId\<close>, then one column
  for each stage identifier among the records of \<open>e\<close>, in the order of first occurrence,
  holding the cell of the last record of \<open>e\<close> for that stage.
\<close>

definition wide_row :: "(json \<Rightarrow> json) \<Rightarrow> json list \<Rightarrow> json \<Rightarrow> json" where
  "wide_row cell rs e =
     (let mine = filter (\<lambda>r. get_or_None r ''entryId'' = e) rs in
      JDict ((JStr ''entryId'', e) #
             map (\<lambda>s. (s, cell (last (filter (\<lambda>r. get_or_None r ''stageId'' = s) mine))))
                 (first_occurrences (map (\<lambda>r. get_or_None r ''stageId'') mine))))"

definition time_cell :: "json \<Rightarrow> json" where
  "time_cell r = seconds (get_or_None r ''elapsedDurationMs'')"

definition is_dict :: "json \<Rightarrow> bool" where
  "is_dict v = (case v of JDict _ \<Rightarrow> True | _ \<Rightarrow> False)"

text \<open>The list under a key of a section: its stages, or its controls.\<close>

definition children_of :: "json \<Rightarrow> string \<Rightarrow> json list" where
  "children_of s key = (case getitem s key of Inr (JList cs) \<Rightarrow> cs | _ \<Rightarrow> [])"

text \<open>
  A section record: a dictionary with an \<open>itinerarySectionId\<close> and, under the key, a list
  of dictionaries. The argument of \<open>getStages\<close> and \<open>getControls\<close> is a list of lists of
  section records, one list for each leg.
\<close>

definition section_record :: "string \<Rightarrow> json \<Rightarrow> bool" where
  "section_record key s =
     (has_key s ''itinerarySectionId'' \<and>
      (case getitem s key of Inr (JList cs) \<Rightarrow> list_all is_dict cs | _ \<Rightarrow> False))"

definition section_list :: "string \<Rightarrow> json \<Rightarrow> bool" where
  "section_list key v = (case v of JList ss \<Rightarrow> list_all (section_record key) ss | _ \<Rightarrow> False)"

definition all_sections :: "json list \<Rightarrow> json list" where
  "all_sections sections = concat (map (\<lambda>v. case v of JList ss \<Rightarrow> ss | _ \<Rightarrow> []) sections)"

text \<open>Values that are pairwise different for \<open>==\<close> (and each equal to itself).\<close>

fun py_distinct :: "json list \<Rightarrow> bool" where
  "py_distinct [] = True"
| "py_distinct (v # vs) =
     (py_eq v v \<and> list_all (\<lambda>w. \<not> py_eq v w \<and> \<not> py_eq w v) vs \<and> py_distinct vs)"

text \<open>A child record with the identifier of its section stored under \<open>itinerarySectionId\<close>.\<close>

definition annotated :: "json \<Rightarrow> json \<Rightarrow> json" where
  "annotated sid child = (case child of
       JDict d \<Rightarrow> JDict (dict_store d (JStr ''itinerarySectionId'') sid)
     | _ \<Rightarrow> child)"

text \<open>The flat list regrouped: the records that carry a given section identifier.\<close>

definition group_of :: "json \<Rightarrow> json list \<Rightarrow> json list" where
  "group_of sid flat = filter (\<lambda>c. field_eq c ''itinerarySectionId'' sid) flat"

text \<open>
  A leg record of an itinerary: a dictionary with an \<open>itineraryLegId\<close>, a \<open>startListId\<close>
  and, under \<open>itinerarySections\<close>, a list of dictionaries that each have an
  \<open>itinerarySectionId\<close> and an \<open>itineraryLegId\<close>.
\<close>

definition leg_section_record :: "json \<Rightarrow> bool" where
  "leg_section_record s = (has_key s ''itinerarySectionId'' \<and> has_key s ''itineraryLegId'')"

definition leg_record :: "json \<Rightarrow> bool" where
  "leg_record item =
     (has_key item ''itineraryLegId'' \<and> has_key item ''startListId'' \<and>
      (case getitem item ''itinerarySections'' of
         Inr (JList ss) \<Rightarrow> list_all leg_section_record ss
       | _ \<Rightarrow> False))"

text \<open>
  What \<open>getStartListId\<close> computes on leg records: the leg identifier of the last section
  with the given identifier; \<open>None\<close> when there is no such section or when that leg
  identifier is false in a condition (\<open>None\<close>, \<open>0\<close>, an empty string); otherwise the
  \<open>startListId\<close> of the first leg with that leg identifier, \<open>None\<close> when there is none.
\<close>

definition startListId_of :: "json list \<Rightarrow> json \<Rightarrow> json" where
  "startListId_of itinerary sid =
     (case find (\<lambda>s. field_eq s ''itinerarySectionId'' sid)
             (rev (concat (map (\<lambda>item. children_of item ''itinerarySections'') itinerary))) of
        None \<Rightarrow> JNull
      | Some s \<Rightarrow>
          (let leg = get_or_None s ''itineraryLegId'' in
           if \<not> truthy leg then JNull
           else (case find (\<lambda>item. field_eq item ''itineraryLegId'' leg) itinerary of
                   None \<Rightarrow> JNull
                 | Some item \<Rightarrow> get_or_None item ''startListId'')))"

text \<open>The value behind a nested field \<open>entry[a][b]\<close>, and behind \<open>entry['eventClasses'][0]['name']\<close>.\<close>

definition class_name :: "json \<Rightarrow> error + json" where
  "class_name entry =
     ebind (ebind (getitem entry ''eventClasses'') getitem0) (\<lambda>c. getitem c ''name'')"

definition value_of :: "error + json \<Rightarrow> json" where
  "value_of r = (case r of Inr v \<Rightarrow> v | Inl _ \<Rightarrow> JNull)"

definition succeeds :: "error + json \<Rightarrow> bool" where
  "succeeds r = (case r of Inr _ \<Rightarrow> True | Inl _ \<Rightarrow> False)"

text \<open>An entry that has every field \<open>getCarDataFromEntry\<close> reads.\<close>

definition complete_entry :: "json \<Rightarrow> bool" where
  "complete_entry entry =
     (list_all (\<lambda>key. succeeds (getitem entry key))
        [''entryId'', ''driverId'', ''codriverId'', ''manufacturerId'',
         ''vehicleModel'', ''eligibility''] \<and>
      succeeds (class_name entry) \<and>
      list_all (\<lambda>(a, b). succeeds (getitem2 entry a b))
        [(''manufacturer'', ''name''), (''entrant'', ''name''), (''group'', ''name''),
         (''driver'', ''abbvName''), (''driver'', ''fullName''),
         (''codriver'', ''abbvName''), (''codriver'', ''fullName''), (''driver'', ''code'')])"

text \<open>
  An entry record: a dictionary in which the sub-records \<open>manufacturer\<close>, \<open>entrant\<close>,
  \<open>group\<close>, \<open>driver\<close> and \<open>codriver\<close>, where present, are dictionaries, and
  \<open>eventClasses\<close>, where present, is a list of dictionaries.
\<close>

definition dict_if_present :: "json \<Rightarrow> string \<Rightarrow> bool" where
  "dict_if_present entry key = (case getitem entry key of Inr v \<Rightarrow> is_dict v | Inl _ \<Rightarrow> True)"

definition entry_record :: "json \<Rightarrow> bool" where
  "entry_record entry =
     (is_dict entry \<and>
      list_all (dict_if_present entry)
        [''manufacturer'', ''entrant'', ''group'', ''driver'', ''codriver''] \<and>
      (case getitem entry ''eventClasses'' of
         Inr (JList cs) \<Rightarrow> list_all is_dict cs
       | Inr _ \<Rightarrow> False
       | Inl _ \<Rightarrow> True))"

text \<open>The projected record: the six core fields, then the nine display fields.\<close>

definition car_data :: "json \<Rightarrow> json" where
  "car_data entry = JDict
     [(JStr ''entryId'', value_of (getitem entry ''entryId'')),
      (JStr ''driverId'', value_of (getitem entry ''driverId'')),
      (JStr ''codriverId'', value_of (getitem entry ''codriverId'')),
      (JStr ''manufacturerId'', value_of (getitem entry ''manufacturerId'')),
      (JStr ''vehicleModel'', value_of (getitem entry ''vehicleModel'')),
      (JStr ''eligibility'', value_of (getitem entry ''eligibility'')),
      (JStr ''classname'', value_of (class_name entry)),
      (JStr ''manufacturer'', value_of (getitem2 entry ''manufacturer'' ''name'')),
      (JStr ''entrantname'', value_of (getitem2 entry ''entrant'' ''name'')),
      (JStr ''groupname'', value_of (getitem2 entry ''group'' ''name'')),
      (JStr ''drivername'', value_of (getitem2 entry ''driver'' ''abbvName'')),
      (JStr ''driverfullname'', value_of (getitem2 entry ''driver'' ''fullName'')),
      (JStr ''codrivername'', value_of (getitem2 entry ''codriver'' ''abbvName'')),
      (JStr ''codriverfullname'', value_of (getitem2 entry ''codriver'' ''fullName'')),
      (JStr ''code'', value_of (getitem2 entry ''driver'' ''code''))]"

text \<open>
  Sending the requests for a list of URLs one after the other: the responses, and the
  state of the world after the last one.
\<close>

fun run_requests :: "'w http \<Rightarrow> 'w \<Rightarrow> string list \<Rightarrow> (error + json) list \<times> 'w" where
  "run_requests get w [] = ([], w)"
| "run_requests get w (url # urls) =
     (case get w url of (r, w') \<Rightarrow>
        (case run_requests get w' urls of (rs, w'') \<Rightarrow> (r # rs, w'')))"

text \<open>A response that is a list; a response that is a list of dictionaries; its elements.\<close>

definition list_response :: "error + json \<Rightarrow> bool" where
  "list_response r = (case r of Inr (JList _) \<Rightarrow> True | _ \<Rightarrow> False)"

definition records_response :: "error + json \<Rightarrow> bool" where
  "records_response r = (case r of Inr (JList ps) \<Rightarrow> list_all is_dict ps | _ \<Rightarrow> False)"

definition body_list :: "error + json \<Rightarrow> json list" where
  "body_list r = (case r of Inr (JList ps) \<Rightarrow> ps | _ \<Rightarrow> [])"

text \<open>A record with the stage identifier stored under \<open>stageId\<close>.\<close>

definition stamped :: "int \<Rightarrow> json \<Rightarrow> json" where
  "stamped stageId pos = (case pos of
       JDict d \<Rightarrow> JDict (dict_store d (JStr ''stageId'') (JInt stageId))
     | _ \<Rightarrow> pos)"

text \<open>
  A server for the examples: it answers four URLs of the event 153 and fails on every
  other; the state of the world is the list of the URLs requested so far.
\<close>

definition stub_get :: "string list http" where
  "stub_get w url =
     ((if url = stage_times_url 153 1
       then Inr (JList [JDict [(JStr ''entryId'', JInt 1)], JDict [(JStr ''entryId'', JInt 2)]])
       else if url = stage_times_url 153 2
       then Inr (JList [JDict [(JStr ''entryId'', JInt 2)]])
       else if url = overall_url 153 1
       then Inr (JList [JDict [(JStr ''entryId'', JInt 1)]])
       else if url = overall_url 153 2
       then Inr (JList [JDict [(JStr ''entryId'', JInt 2), (JStr ''stageId'', JInt 0)]])
       else Inl RequestError),
      w @ [url])"

section \<open>Facts about the values\<close>

lemma py_eq_JStr: "py_eq v (JStr s) = (v = JStr s)"
  by (cases v) (auto simp: py_eq.simps scalar_eq_def num_of_def)

lemma first_or_None_simps:
  "first_or_None [] = JNull" "first_or_None (x # xs) = x"
  by (simp_all add: first_or_None_def)

lemma first_or_None_map_filter:
  "first_or_None (map f (filter P xs)) = (case find P xs of None \<Rightarrow> JNull | Some x \<Rightarrow> f x)"
  by (induction xs) (auto simp: first_or_None_simps)

lemma getitems_wf:
  "\<forall>x \<in> set xs. has_key x key \<Longrightarrow> getitems xs key = Inr (map (\<lambda>x. get_or_None x key) xs)"
  by (induction xs) (auto simp: has_key_def get_or_None_def split: sum.splits)

section \<open>Lookup by identifier, code and name\<close>

text \<open>
  C9. On a list of entry records (dictionaries with an \<open>entryId\<close>), \<open>getEntryById\<close>
  returns the first entry whose \<open>entryId\<close> equals the given identifier, and returns
  \<open>None\<close>, not an error, when no entry matches.
\<close>

theorem getEntryById_first_match:
  "\<forall>e \<in> set entries. has_key e ''entryId'' \<Longrightarrow>
   getEntryById entries entryId =
     Inr (case find (\<lambda>e. field_eq e ''entryId'' entryId) entries of
            None \<Rightarrow> JNull
          | Some e \<Rightarrow> e)"
  by (induction entries) (auto simp: has_key_def field_eq_def split: sum.splits)

theorem getEntryById_first_match_witness:
  "list_all (\<lambda>e. has_key e ''entryId'')
     [JDict [(JStr ''entryId'', JInt 1)],
                JDict [(JStr ''entryId'', JInt 2), (JStr ''code'', JStr ''OGI'')],
                JDict [(JStr ''entryId'', JInt 2), (JStr ''code'', JStr ''NEU'')]] \<and>
   getEntryById [JDict [(JStr ''entryId'', JInt 1)],
                 JDict [(JStr ''entryId'', JInt 2), (JStr ''code'', JStr ''OGI'')],
                 JDict [(JStr ''entryId'', JInt 2), (JStr ''code'', JStr ''NEU'')]] (JInt 2)
     = Inr (JDict [(JStr ''entryId'', JInt 2), (JStr ''code'', JStr ''OGI'')]) \<and>
   getEntryById [JDict [(JStr ''entryId'', JInt 1)],
                 JDict [(JStr ''entryId'', JInt 2), (JStr ''code'', JStr ''OGI'')],
                 JDict [(JStr ''entryId'', JInt 2), (JStr ''code'', JStr ''NEU'')]] (JInt 3)
     = Inr JNull"
proof -
  let ?es = "[JDict [(JStr ''entryId'', JInt 1)],
              JDict [(JStr ''entryId'', JInt 2), (JStr ''code'', JStr ''OGI'')],
              JDict [(JStr ''entryId'', JInt 2), (JStr ''code'', JStr ''NEU'')]]"
  have h: "\<forall>e \<in> set ?es. has_key e ''entryId''"
    by (simp add: has_key_def getitem_def scalar_eq_def)
  show ?thesis
    using h getEntryById_first_match [OF h, of "JInt 2"] getEntryById_first_match [OF h, of "JInt 3"]
    by (simp add: list_all_iff field_eq_def getitem_def scalar_eq_def py_eq.simps num_of_def)
qed

lemma stageIds_eq_wf:
  "\<forall>s \<in> set stages. has_key s typ \<and> has_key s ''stageId'' \<Longrightarrow>
   stageIds_eq stages typ sname =
     Inr (map (\<lambda>s. get_or_None s ''stageId'') (filter (\<lambda>s. field_eq s typ sname) stages))"
  by (induction stages) (auto simp: has_key_def field_eq_def get_or_None_def split: sum.splits)

text \<open>
  C7. On a list of stage records (dictionaries with a \<open>code\<close> and a \<open>stageId\<close>),
  \<open>getStageId\<close> with \<open>typ = 'code'\<close> returns the \<open>stageId\<close> of the first stage whose code
  is exactly the query string, and \<open>None\<close> when no stage has exactly that code. The
  match is equality of strings, so a code that differs in letter case does not match.
\<close>

theorem getStageId_code_exact:
  "\<forall>s \<in> set stages. has_key s ''code'' \<and> has_key s ''stageId'' \<Longrightarrow>
   getStageId stages (JStr code) ''code'' =
     Inr (case find (\<lambda>s. getitem s ''code'' = Inr (JStr code)) stages of
            None \<Rightarrow> JNull
          | Some s \<Rightarrow> get_or_None s ''stageId'')"
proof -
  assume wf: "\<forall>s \<in> set stages. has_key s ''code'' \<and> has_key s ''stageId''"
  have eq: "(\<lambda>s. field_eq s ''code'' (JStr code)) = (\<lambda>s. getitem s ''code'' = Inr (JStr code))"
    by (auto simp: fun_eq_iff field_eq_def py_eq_JStr split: sum.splits)
  show ?thesis
    unfolding getStageId_def
    by (simp add: stageIds_eq_wf [OF wf] first_or_None_map_filter eq)
qed

theorem getStageId_code_exact_witness:
  "list_all (\<lambda>s. has_key s ''code'' \<and> has_key s ''stageId'')
     [JDict [(JStr ''code'', JStr ''SS1''), (JStr ''stageId'', JInt 7)],
                JDict [(JStr ''code'', JStr ''SS2''), (JStr ''stageId'', JInt 8)]] \<and>
   getStageId [JDict [(JStr ''code'', JStr ''SS1''), (JStr ''stageId'', JInt 7)],
               JDict [(JStr ''code'', JStr ''SS2''), (JStr ''stageId'', JInt 8)]] (JStr ''SS2'') ''code''
     = Inr (JInt 8) \<and>
   getStageId [JDict [(JStr ''code'', JStr ''SS1''), (JStr ''stageId'', JInt 7)],
               JDict [(JStr ''code'', JStr ''SS2''), (JStr ''stageId'', JInt 8)]] (JStr ''ss2'') ''code''
     = Inr JNull"
proof -
  let ?ss = "[JDict [(JStr ''code'', JStr ''SS1''), (JStr ''stageId'', JInt 7)],
              JDict [(JStr ''code'', JStr ''SS2''), (JStr ''stageId'', JInt 8)]]"
  have h: "\<forall>s \<in> set ?ss. has_key s ''code'' \<and> has_key s ''stageId''"
    by (simp add: has_key_def getitem_def scalar_eq_def)
  show ?thesis
    using h getStageId_code_exact [OF h, of "''SS2''"] getStageId_code_exact [OF h, of "''ss2''"]
    by (simp add: list_all_iff get_or_None_def getitem_def scalar_eq_def)
qed












lemma filter_eq_wf:
  "\<forall>s \<in> set stages. has_key s typ \<Longrightarrow>
   filter_eq stages typ sid = Inr (filter (\<lambda>s. field_eq s typ sid) stages)"
  by (induction stages) (auto simp: has_key_def field_eq_def split: sum.splits)

lemma stage_info_not_None: "stage_info stage clean \<noteq> Inr JNull"
  by (auto simp: stage_info_def split: sum.splits)

text \<open>
  C10. \<open>getStageInfo\<close> never returns \<open>None\<close>. On a list of stage records (dictionaries
  with the selected field) none of which has the field equal to \<open>sid\<close>, the guard
  \<open>len(stage) < 0\<close> does not hold and \<open>stage[0]\<close> raises \<open>IndexError\<close>.
\<close>

theorem getStageInfo_no_match_IndexError:
  "getStageInfo stages sid typ clean \<noteq> Inr JNull \<and>
   ((\<forall>s \<in> set stages. has_key s typ \<and> \<not> field_eq s typ sid) \<longrightarrow>
      getStageInfo stages sid typ clean = Inl IndexError)"
proof (intro conjI impI)
  show "getStageInfo stages sid typ clean \<noteq> Inr JNull"
    by (auto simp: getStageInfo_def stage_info_not_None split: sum.splits list.splits)
next
  assume a: "\<forall>s \<in> set stages. has_key s typ \<and> \<not> field_eq s typ sid"
  then have wf: "\<forall>s \<in> set stages. has_key s typ" by simp
  from a have "filter (\<lambda>s. field_eq s typ sid) stages = []" by (simp add: filter_empty_conv)
  then show "getStageInfo stages sid typ clean = Inl IndexError"
    by (simp add: getStageInfo_def filter_eq_wf [OF wf])
qed

theorem getStageInfo_no_match_IndexError_witness:
  "list_all (\<lambda>s. has_key s ''stageId'' \<and> \<not> field_eq s ''stageId'' (JInt 8))
     [JDict [(JStr ''stageId'', JInt 7), (JStr ''name'', JStr ''Col de Turini (Live TV)''),
                       (JStr ''distance'', JFloat (1234 / 100))]] \<and>
   getStageInfo [JDict [(JStr ''stageId'', JInt 7), (JStr ''name'', JStr ''Col de Turini (Live TV)''),
                        (JStr ''distance'', JFloat (1234 / 100))]] (JInt 8) ''stageId'' True
     = Inl IndexError \<and>
   getStageInfo [JDict [(JStr ''stageId'', JInt 7), (JStr ''name'', JStr ''Col de Turini (Live TV)''),
                        (JStr ''distance'', JFloat (1234 / 100))]] (JInt 7) ''stageId'' True
     = Inr (JDict [(JStr ''name'', JStr ''Col de Turini''), (JStr ''distance'', JFloat (1234 / 100))])"
proof -
  let ?ss = "[JDict [(JStr ''stageId'', JInt 7), (JStr ''name'', JStr ''Col de Turini (Live TV)''),
                     (JStr ''distance'', JFloat (1234 / 100))]]"
  have h: "\<forall>s \<in> set ?ss. has_key s ''stageId'' \<and> \<not> field_eq s ''stageId'' (JInt 8)"
    by (simp add: has_key_def field_eq_def getitem_def scalar_eq_def py_eq.simps num_of_def)
  have v: "getStageInfo ?ss (JInt 7) ''stageId'' True
     = Inr (JDict [(JStr ''name'', JStr ''Col de Turini''), (JStr ''distance'', JFloat (1234 / 100))])"
    by (simp add: getStageInfo_def stage_info_def py_replace_def getitem_def scalar_eq_def
          py_eq.simps num_of_def)
  from getStageInfo_no_match_IndexError [of ?ss "JInt 8" "''stageId''" True] h
  have "getStageInfo ?ss (JInt 8) ''stageId'' True = Inl IndexError" by blast
  with h v show ?thesis unfolding list_all_iff by blast
qed

section \<open>The three pivots are one routine\<close>

lemma generic_row_times:
  "generic_row xs ''elapsedDurationMs'' entry d = times_row xs entry d"
  by (induction xs arbitrary: d) (auto split: sum.splits)

lemma generic_row_positions:
  "generic_row xs ''position'' entry d = positions_row xs entry d"
  by (induction xs arbitrary: d) (auto split: sum.splits)

lemma generic_rows_times:
  "generic_rows es xs ''elapsedDurationMs'' = times_rows es xs"
  by (induction es) (simp_all add: generic_row_times split: sum.splits)

lemma generic_rows_positions:
  "generic_rows es xs ''position'' = positions_rows es xs"
  by (induction es) (simp_all add: generic_row_positions split: sum.splits)

text \<open>
  C6. On every input, \<open>getMultiStageGenericWide\<close> with \<open>stageKey = 'elapsedDurationMs'\<close>
  returns what \<open>getMultiStageTimesWide\<close> returns, and with \<open>stageKey = 'position'\<close> what
  \<open>getMultiStagePositionsWide\<close> returns: the same rows, or the same exception.
\<close>

theorem generic_wide_instances:
  "getMultiStageGenericWide multiStageTimes ''elapsedDurationMs'' =
     getMultiStageTimesWide multiStageTimes \<and>
   getMultiStageGenericWide multiStageTimes ''position'' =
     getMultiStagePositionsWide multiStageTimes"
  by (simp add: getMultiStageGenericWide_def getMultiStageTimesWide_def
        getMultiStagePositionsWide_def generic_rows_times generic_rows_positions
        split: sum.splits)

theorem generic_wide_instances_witness:
  "getMultiStageGenericWide
     [JDict [(JStr ''entryId'', JInt 1), (JStr ''stageId'', JInt 10),
             (JStr ''elapsedDurationMs'', JInt 65000), (JStr ''position'', JInt 2)],
      JDict [(JStr ''entryId'', JInt 2), (JStr ''stageId'', JInt 10),
             (JStr ''elapsedDurationMs'', JNull), (JStr ''position'', JInt 1)]]
     ''elapsedDurationMs''
   = Inr [JDict [(JStr ''entryId'', JInt 1), (JInt 10, JFloat 65)],
          JDict [(JStr ''entryId'', JInt 2), (JInt 10, JInt 0)]] \<and>
   getMultiStageGenericWide
     [JDict [(JStr ''entryId'', JInt 1), (JStr ''stageId'', JInt 10),
             (JStr ''elapsedDurationMs'', JInt 65000), (JStr ''position'', JInt 2)],
      JDict [(JStr ''entryId'', JInt 2), (JStr ''stageId'', JInt 10),
             (JStr ''elapsedDurationMs'', JNull), (JStr ''position'', JInt 1)]]
     ''position''
   = Inr [JDict [(JStr ''entryId'', JInt 1), (JInt 10, JInt 2)],
          JDict [(JStr ''entryId'', JInt 2), (JInt 10, JInt 1)]]"
proof -
  let ?xs = "[JDict [(JStr ''entryId'', JInt 1), (JStr ''stageId'', JInt 10),
             (JStr ''elapsedDurationMs'', JInt 65000), (JStr ''position'', JInt 2)],
      JDict [(JStr ''entryId'', JInt 2), (JStr ''stageId'', JInt 10),
             (JStr ''elapsedDurationMs'', JNull), (JStr ''position'', JInt 1)]]"
  have t: "getMultiStageTimesWide ?xs
     = Inr [JDict [(JStr ''entryId'', JInt 1), (JInt 10, JFloat 65)],
          JDict [(JStr ''entryId'', JInt 2), (JInt 10, JInt 0)]]"
    by code_simp
  have p: "getMultiStagePositionsWide ?xs
     = Inr [JDict [(JStr ''entryId'', JInt 1), (JInt 10, JInt 2)],
          JDict [(JStr ''entryId'', JInt 2), (JInt 10, JInt 1)]]"
    by code_simp
  from generic_wide_instances [of ?xs] t p show ?thesis by simp
qed

section \<open>Floats\<close>

lemma pow2_bitlen_bounds:
  fixes p :: int assumes "0 < p"
  shows "(2::rat) powi (bitlen p - 1) \<le> of_int p" and "(of_int p :: rat) < 2 powi (bitlen p)"
proof -
  from assms have b: "1 \<le> bitlen p" by (auto simp: bitlen_alt_def)
  from bitlen_bounds [OF assms] have "2 ^ nat (bitlen p - 1) \<le> p" "p < 2 ^ nat (bitlen p)" by auto
  then have "(of_int (2 ^ nat (bitlen p - 1)) :: rat) \<le> of_int p" "(of_int p :: rat) < of_int (2 ^ nat (bitlen p))"
    by (simp_all only: of_int_le_iff of_int_less_iff)
  then show "(2::rat) powi (bitlen p - 1) \<le> of_int p" and "(of_int p :: rat) < 2 powi (bitlen p)"
    using b by (simp_all add: power_int_def)
qed

lemma floor_log2_le:
  assumes "0 < x" shows "2 powi (floor_log2 x) \<le> x"
proof -
  obtain p q where pq: "quotient_of x = (p, q)" by (cases "quotient_of x")
  then have q: "0 < q" by (rule quotient_of_denom_pos)
  from pq have x: "x = of_int p / of_int q" by (rule quotient_of_div)
  with assms q have p: "0 < p" by (simp add: zero_less_divide_iff)
  let ?k = "bitlen p - bitlen q"
  show ?thesis
  proof (cases "2 powi ?k \<le> x")
    case True
    then show ?thesis by (simp add: floor_log2_def pq)
  next
    case False
    have "(2::rat) powi (?k - 1) = 2 powi (bitlen p - 1) / 2 powi (bitlen q)"
      by (simp add: power_int_diff)
    also have "\<dots> \<le> of_int p / 2 powi (bitlen q)"
      using pow2_bitlen_bounds(1) [OF p] by (simp add: divide_right_mono)
    also have "\<dots> \<le> of_int p / of_int q"
      using pow2_bitlen_bounds(2) [OF q] p q by (simp add: frac_le)
    finally have "(2::rat) powi (?k - 1) \<le> x" by (simp add: x)
    with False show ?thesis by (simp add: floor_log2_def pq)
  qed
qed

lemma round_half_even_le: "of_int (round_half_even x) \<le> x + 1 / 2"
  unfolding round_half_even_def Let_def
  by (auto simp: not_less) linarith+

lemma binary64_in_range:
  assumes "\<bar>x\<bar> < 2 ^ 1023"
  shows "\<exists>r. binary64 x = Some r"
proof (cases "x = 0")
  case True
  then show ?thesis by (simp add: binary64_def)
next
  case False
  define a where "a = \<bar>x\<bar>"
  define e where "e = max (floor_log2 a - 52) (- 1074)"
  define m where "m = round_half_even (a / 2 powi e)"
  from False have a: "0 < a" by (simp add: a_def)
  have pe: "(0::rat) < 2 powi e" by simp
  have "(2::rat) powi (floor_log2 a - 52) \<le> 2 powi (floor_log2 a)"
    by (rule power_int_increasing) simp_all
  also have "\<dots> \<le> a" by (rule floor_log2_le [OF a])
  finally have e1: "(2::rat) powi (floor_log2 a - 52) \<le> a" .
  have "(2::rat) powi (- 1074) \<le> 2 powi 0"
    by (rule power_int_increasing) simp_all
  then have e2: "(2::rat) powi (- 1074) \<le> 1" by simp
  have ple: "(2::rat) powi e \<le> max a 1"
    using e1 e2 by (auto simp: e_def max_def)
  have "of_int m \<le> a / 2 powi e + 1 / 2"
    unfolding m_def by (rule round_half_even_le)
  then have "of_int m * 2 powi e \<le> (a / 2 powi e + 1 / 2) * 2 powi e"
    using pe by (simp add: mult_right_mono)
  also have "\<dots> = a + 2 powi e / 2"
    using pe by (simp add: field_simps)
  also have "\<dots> \<le> a + max a 1 / 2" using ple by simp
  also have "\<dots> < 2 ^ 1024"
  proof -
    have "(2::rat) ^ 1024 = 2 ^ 1023 + 2 ^ 1023" by simp
    moreover have "(1::rat) \<le> 2 ^ 1023" by (rule one_le_power) simp
    moreover have "a < 2 ^ 1023" using assms by (simp add: a_def)
    ultimately show ?thesis using a by (simp only: max_def split: if_splits) linarith
  qed
  finally have "\<not> (2::rat) ^ 1024 \<le> of_int m * 2 powi e" by (simp only: not_le)
  then show ?thesis
    using False by (simp add: binary64_def Let_def a_def e_def m_def)
qed

lemma first_occurrences_snoc:
  "first_occurrences (xs @ [x]) =
     (if x \<in> set xs then first_occurrences xs else first_occurrences xs @ [x])"
  by (simp add: first_occurrences_def)

lemma first_occurrences_Nil [simp]: "first_occurrences [] = []"
  by (simp add: first_occurrences_def)

lemma set_first_occurrences [simp]: "set (first_occurrences xs) = set xs"
  by (simp add: first_occurrences_def)

lemma distinct_first_occurrences [simp]: "distinct (first_occurrences xs)"
  by (simp add: first_occurrences_def)

lemma length_first_occurrences: "length (first_occurrences xs) = card (set xs)"
  by (simp add: first_occurrences_def length_remdups_card_conv)


section \<open>Dictionaries with integer keys\<close>

lemma is_int_iff: "is_int v = (\<exists>n. v = JInt n)"
  by (cases v) (simp_all add: is_int_def)

lemma scalar_eq_int [simp]:
  "is_int a \<Longrightarrow> is_int b \<Longrightarrow> scalar_eq a b = (a = b)"
  by (auto simp: is_int_iff scalar_eq_def num_of_def)

lemma scalar_eq_str_int [simp]: "is_int b \<Longrightarrow> scalar_eq (JStr s) b = False"
  by (auto simp: is_int_iff scalar_eq_def)

lemma py_eq_int [simp]: "is_int a \<Longrightarrow> is_int b \<Longrightarrow> py_eq a b = (a = b)"
  by (auto simp: is_int_iff py_eq.simps scalar_eq_def num_of_def)

lemma hashable_int [simp]: "is_int a \<Longrightarrow> hashable a"
  by (auto simp: is_int_iff hashable_def)

lemma list_ex_py_eq_int:
  "is_int a \<Longrightarrow> \<forall>b \<in> set bs. is_int b \<Longrightarrow> list_ex (\<lambda>e. py_eq a e) bs = (a \<in> set bs)"
  by (induction bs) auto

lemma dict_store_map:
  assumes "is_int k" "\<forall>k' \<in> set ks. is_int k'" "distinct ks"
  shows "dict_store (map (\<lambda>k'. (k', f k')) ks) k v =
     (if k \<in> set ks then map (\<lambda>k'. (k', if k' = k then v else f k')) ks
      else map (\<lambda>k'. (k', f k')) ks @ [(k, v)])"
  using assms
proof (induction ks)
  case Nil
  then show ?case by simp
next
  case (Cons a ks)
  show ?case
  proof (cases "a = k")
    case True
    with Cons.prems have "k \<notin> set ks" by simp
    then have "map (\<lambda>k'. (k', if k' = k then v else f k')) ks = map (\<lambda>k'. (k', f k')) ks"
      by (intro map_cong) auto
    with True Cons.prems show ?thesis by simp
  next
    case False
    with Cons show ?thesis by simp
  qed
qed

text \<open>
  Storing the cells of a list of records one after the other, into a dictionary that
  holds one string key: the keys come in the order of their first occurrence, each with
  the cell of its last record.
\<close>

lemma foldl_dict_store:
  assumes "\<forall>r \<in> set rs. is_int (key r)"
  shows "foldl (\<lambda>d r. dict_store d (key r) (val r)) [(JStr skey, sval)] rs =
     (JStr skey, sval) #
       map (\<lambda>k. (k, val (last (filter (\<lambda>r. key r = k) rs))))
           (first_occurrences (map key rs))"
  using assms
proof (induction rs rule: rev_induct)
  case Nil
  then show ?case by simp
next
  case (snoc r rs)
  let ?f = "\<lambda>k. val (last (filter (\<lambda>r. key r = k) rs))"
  let ?ks = "first_occurrences (map key rs)"
  from snoc.prems have ints: "is_int (key r)" "\<forall>k' \<in> set ?ks. is_int k'" "distinct ?ks"
    by auto
  from snoc have IH: "foldl (\<lambda>d r. dict_store d (key r) (val r)) [(JStr skey, sval)] rs =
      (JStr skey, sval) # map (\<lambda>k. (k, ?f k)) ?ks" by simp
  have "foldl (\<lambda>d r. dict_store d (key r) (val r)) [(JStr skey, sval)] (rs @ [r]) =
      (JStr skey, sval) # dict_store (map (\<lambda>k. (k, ?f k)) ?ks) (key r) (val r)"
    using ints by (simp add: IH)
  also have "dict_store (map (\<lambda>k. (k, ?f k)) ?ks) (key r) (val r) =
      map (\<lambda>k. (k, val (last (filter (\<lambda>r. key r = k) (rs @ [r])))))
          (first_occurrences (map key (rs @ [r])))"
    by (auto simp add: dict_store_map [OF ints] first_occurrences_snoc intro!: map_cong)
  finally show ?case .
qed


section \<open>The wide pivot of the stage times\<close>

lemma getitem_int:
  "is_int (get_or_None r key) \<Longrightarrow> getitem r key = Inr (get_or_None r key)"
  by (auto simp: get_or_None_def is_int_def split: sum.splits)

lemma py_truediv_int:
  assumes "\<bar>n\<bar> < 2 ^ 1023"
  shows "py_truediv (JInt n) 1000 =
     Inr (case binary64 (of_int n / 1000) of Some q \<Rightarrow> JFloat q | None \<Rightarrow> JNull)"
proof -
  have "\<bar>rat_of_int n / 1000\<bar> \<le> \<bar>rat_of_int n\<bar>" by simp
  also have "\<dots> = rat_of_int \<bar>n\<bar>" by simp
  also have "\<dots> < rat_of_int (2 ^ 1023)" using assms by (simp only: of_int_less_iff)
  finally have "\<bar>rat_of_int n / 1000\<bar> < 2 ^ 1023" by simp
  from binary64_in_range [OF this] obtain r where "binary64 (rat_of_int n / 1000) = Some r" ..
  then show ?thesis by (simp add: py_truediv_def num_of_def)
qed

lemma stage_time_record_cases:
  assumes "stage_time_record r"
  obtains "getitem r ''elapsedDurationMs'' = Inr JNull"
  | n where "getitem r ''elapsedDurationMs'' = Inr (JInt n)" "\<bar>n\<bar> < 2 ^ 1023"
  using assms unfolding stage_time_record_def
  by (cases "getitem r ''elapsedDurationMs''"; cases "projr (getitem r ''elapsedDurationMs'')")
     (simp_all del: power_numeral)

lemma time_cell_ok:
  assumes "stage_time_record r"
  shows "(case getitem r ''elapsedDurationMs'' of
            Inl err \<Rightarrow> Inl err
          | Inr c \<Rightarrow>
              if truthy c
              then (case getitem r ''elapsedDurationMs'' of
                      Inl err \<Rightarrow> Inl err
                    | Inr ms \<Rightarrow> py_truediv ms 1000)
              else Inr (JInt 0)) = Inr (time_cell r)"
  using assms
proof (cases rule: stage_time_record_cases)
  case 1
  then show ?thesis
    by (simp add: time_cell_def seconds_def get_or_None_def truthy_def)
next
  case (2 n)
  from py_truediv_int [OF 2(2)] 2(1) show ?thesis
    by (simp add: time_cell_def seconds_def get_or_None_def truthy_def)
qed

lemma time_cell_not_None:
  assumes "stage_time_record r"
  shows "time_cell r \<noteq> JNull"
  using assms
proof (cases rule: stage_time_record_cases)
  case 1
  then show ?thesis by (simp add: time_cell_def seconds_def get_or_None_def)
next
  case (2 n)
  have "\<bar>rat_of_int n / 1000\<bar> \<le> \<bar>rat_of_int n\<bar>" by simp
  also have "\<dots> = rat_of_int \<bar>n\<bar>" by simp
  also have "\<dots> < rat_of_int (2 ^ 1023)" using 2(2) by (simp only: of_int_less_iff)
  finally have "\<bar>rat_of_int n / 1000\<bar> < 2 ^ 1023" by simp
  from binary64_in_range [OF this] obtain q where "binary64 (rat_of_int n / 1000) = Some q" ..
  with 2(1) show ?thesis by (simp add: time_cell_def seconds_def get_or_None_def)
qed

lemma collect_entries_wf:
  assumes "\<forall>r \<in> set xs. stage_time_record r" "\<forall>v \<in> set a. is_int v"
  shows "collect_entries xs (first_occurrences a) =
     Inr (first_occurrences (a @ map (\<lambda>r. get_or_None r ''entryId'') xs))"
  using assms
proof (induction xs arbitrary: a)
  case Nil
  then show ?case by simp
next
  case (Cons r xs)
  let ?e = "get_or_None r ''entryId''"
  from Cons.prems have e: "is_int ?e" by (simp add: stage_time_record_def)
  then have g: "getitem r ''entryId'' = Inr ?e" by (rule getitem_int)
  from Cons.prems e have ints: "\<forall>v \<in> set (a @ [?e]). is_int v" by simp
  from Cons.prems have "list_ex (\<lambda>x. py_eq ?e x) (first_occurrences a) = (?e \<in> set a)"
    by (subst list_ex_py_eq_int [OF e]) simp_all
  then have "collect_entries (r # xs) (first_occurrences a) =
      collect_entries xs (first_occurrences (a @ [?e]))"
    by (simp add: g first_occurrences_snoc)
  also have "\<dots> = Inr (first_occurrences ((a @ [?e]) @ map (\<lambda>r. get_or_None r ''entryId'') xs))"
    using Cons.prems ints by (intro Cons.IH) simp_all
  finally show ?case by simp
qed

lemma times_row_wf:
  assumes "\<forall>r \<in> set xs. stage_time_record r" "is_int e"
  shows "times_row xs e d =
     Inr (foldl (\<lambda>d r. dict_store d (get_or_None r ''stageId'') (time_cell r)) d
            (filter (\<lambda>r. get_or_None r ''entryId'' = e) xs))"
  using assms
proof (induction xs arbitrary: d)
  case Nil
  then show ?case by simp
next
  case (Cons r xs)
  from Cons.prems have r: "stage_time_record r" by simp
  then have e: "is_int (get_or_None r ''entryId'')" and s: "is_int (get_or_None r ''stageId'')"
    by (simp_all add: stage_time_record_def)
  note g = getitem_int [OF e] getitem_int [OF s] time_cell_ok [OF r]
  from Cons.prems have IH: "\<And>d. times_row xs e d =
     Inr (foldl (\<lambda>d r. dict_store d (get_or_None r ''stageId'') (time_cell r)) d
            (filter (\<lambda>r. get_or_None r ''entryId'' = e) xs))"
    by (intro Cons.IH) simp_all
  show ?case
    using e s \<open>is_int e\<close> by (simp add: g IH dict_setitem_def)
qed

lemma times_rows_wf:
  assumes "\<forall>r \<in> set xs. stage_time_record r" "\<forall>e \<in> set es. is_int e"
  shows "times_rows es xs = Inr (map (wide_row time_cell xs) es)"
  using assms
proof (induction es)
  case Nil
  then show ?case by simp
next
  case (Cons e es)
  from Cons.prems have e: "is_int e" by simp
  from Cons.prems have "\<forall>r \<in> set (filter (\<lambda>r. get_or_None r ''entryId'' = e) xs).
      is_int (get_or_None r ''stageId'')"
    by (simp add: stage_time_record_def)
  from foldl_dict_store [OF this, where skey = "''entryId''" and sval = e and val = time_cell]
  have "times_row xs e [(JStr ''entryId'', e)] = Inr (case wide_row time_cell xs e of JDict d \<Rightarrow> d | _ \<Rightarrow> [])"
    by (simp add: times_row_wf [OF Cons.prems(1) e] wide_row_def)
  moreover have "JDict (case wide_row time_cell xs e of JDict d \<Rightarrow> d | _ \<Rightarrow> []) = wide_row time_cell xs e"
    by (simp add: wide_row_def)
  ultimately show ?case using Cons by simp
qed


text \<open>
  C1. On a list of stage-time records, \<open>getMultiStageTimesWide\<close> returns one row for each
  distinct \<open>entryId\<close>, in the order of first occurrence. The row of an entry holds the
  \<open>entryId\<close> and one column for each \<open>stageId\<close> among the records of the entry, with the
  elapsed duration of the last such record divided by 1000 as a float; an
  \<open>elapsedDurationMs\<close> of \<open>None\<close> gives the column the value \<open>0\<close>, and no column holds
  \<open>None\<close>. On the input of the example the result is
  \<open>[{entryId: 1, 10: 65.0, 11: 0}, {entryId: 2, 10: 70.0}]\<close>.
\<close>

theorem getMultiStageTimesWide_pivot:
  "((\<forall>r \<in> set multiStageTimes. stage_time_record r) \<longrightarrow>
      (\<exists>rows. getMultiStageTimesWide multiStageTimes = Inr rows \<and>
         rows = map (wide_row time_cell multiStageTimes)
                  (first_occurrences (map (\<lambda>r. get_or_None r ''entryId'') multiStageTimes)) \<and>
         length rows = card (set (map (\<lambda>r. get_or_None r ''entryId'') multiStageTimes))) \<and>
      (\<forall>r \<in> set multiStageTimes. time_cell r \<noteq> JNull)) \<and>
   seconds JNull = JInt 0 \<and>
   getMultiStageTimesWide
     [JDict [(JStr ''entryId'', JInt 1), (JStr ''stageId'', JInt 10),
             (JStr ''elapsedDurationMs'', JInt 65000)],
      JDict [(JStr ''entryId'', JInt 1), (JStr ''stageId'', JInt 11),
             (JStr ''elapsedDurationMs'', JNull)],
      JDict [(JStr ''entryId'', JInt 2), (JStr ''stageId'', JInt 10),
             (JStr ''elapsedDurationMs'', JInt 70000)]]
   = Inr [JDict [(JStr ''entryId'', JInt 1), (JInt 10, JFloat 65), (JInt 11, JInt 0)],
          JDict [(JStr ''entryId'', JInt 2), (JInt 10, JFloat 70)]]"
proof (intro conjI impI)
  assume wf: "\<forall>r \<in> set multiStageTimes. stage_time_record r"
  let ?ids = "map (\<lambda>r. get_or_None r ''entryId'') multiStageTimes"
  from wf have ints: "\<forall>e \<in> set (first_occurrences ?ids). is_int e"
    by (simp add: stage_time_record_def)
  from collect_entries_wf [OF wf, of "[]"]
  have "collect_entries multiStageTimes [] = Inr (first_occurrences ?ids)" by simp
  then have "getMultiStageTimesWide multiStageTimes =
      Inr (map (wide_row time_cell multiStageTimes) (first_occurrences ?ids))"
    by (simp add: getMultiStageTimesWide_def times_rows_wf [OF wf ints])
  then show "\<exists>rows. getMultiStageTimesWide multiStageTimes = Inr rows \<and>
         rows = map (wide_row time_cell multiStageTimes) (first_occurrences ?ids) \<and>
         length rows = card (set ?ids)"
    by (simp add: length_first_occurrences)
  from wf show "\<forall>r \<in> set multiStageTimes. time_cell r \<noteq> JNull"
    by (simp add: time_cell_not_None)
next
  show "seconds JNull = JInt 0" by (simp add: seconds_def)
next
  show "getMultiStageTimesWide
     [JDict [(JStr ''entryId'', JInt 1), (JStr ''stageId'', JInt 10),
             (JStr ''elapsedDurationMs'', JInt 65000)],
      JDict [(JStr ''entryId'', JInt 1), (JStr ''stageId'', JInt 11),
             (JStr ''elapsedDurationMs'', JNull)],
      JDict [(JStr ''entryId'', JInt 2), (JStr ''stageId'', JInt 10),
             (JStr ''elapsedDurationMs'', JInt 70000)]]
   = Inr [JDict [(JStr ''entryId'', JInt 1), (JInt 10, JFloat 65), (JInt 11, JInt 0)],
          JDict [(JStr ''entryId'', JInt 2), (JInt 10, JFloat 70)]]"
    by code_simp
qed

theorem getMultiStageTimesWide_pivot_witness:
  "list_all stage_time_record
     [JDict [(JStr ''entryId'', JInt 7), (JStr ''stageId'', JInt 10),
             (JStr ''elapsedDurationMs'', JInt 65000)],
      JDict [(JStr ''entryId'', JInt 3), (JStr ''stageId'', JInt 10),
             (JStr ''elapsedDurationMs'', JNull)],
      JDict [(JStr ''entryId'', JInt 7), (JStr ''stageId'', JInt 10),
             (JStr ''elapsedDurationMs'', JInt 1500)]] \<and>
   getMultiStageTimesWide
     [JDict [(JStr ''entryId'', JInt 7), (JStr ''stageId'', JInt 10),
             (JStr ''elapsedDurationMs'', JInt 65000)],
      JDict [(JStr ''entryId'', JInt 3), (JStr ''stageId'', JInt 10),
             (JStr ''elapsedDurationMs'', JNull)],
      JDict [(JStr ''entryId'', JInt 7), (JStr ''stageId'', JInt 10),
             (JStr ''elapsedDurationMs'', JInt 1500)]]
   = Inr [JDict [(JStr ''entryId'', JInt 7), (JInt 10, JFloat (3 / 2))],
          JDict [(JStr ''entryId'', JInt 3), (JInt 10, JInt 0)]]"
proof -
  let ?xs = "[JDict [(JStr ''entryId'', JInt 7), (JStr ''stageId'', JInt 10),
             (JStr ''elapsedDurationMs'', JInt 65000)],
      JDict [(JStr ''entryId'', JInt 3), (JStr ''stageId'', JInt 10),
             (JStr ''elapsedDurationMs'', JNull)],
      JDict [(JStr ''entryId'', JInt 7), (JStr ''stageId'', JInt 10),
             (JStr ''elapsedDurationMs'', JInt 1500)]]"
  have h: "list_all stage_time_record ?xs" by code_simp
  have v: "map (wide_row time_cell ?xs) (first_occurrences (map (\<lambda>r. get_or_None r ''entryId'') ?xs))
     = [JDict [(JStr ''entryId'', JInt 7), (JInt 10, JFloat (3 / 2))],
        JDict [(JStr ''entryId'', JInt 3), (JInt 10, JInt 0)]]"
    by code_simp
  from h have "\<forall>r \<in> set ?xs. stage_time_record r" by (simp only: list_all_iff)
  with getMultiStageTimesWide_pivot [of ?xs]
  have "getMultiStageTimesWide ?xs =
      Inr (map (wide_row time_cell ?xs) (first_occurrences (map (\<lambda>r. get_or_None r ''entryId'') ?xs)))"
    by blast
  with h v show ?thesis by (simp only:)
qed

text \<open>A record without the key \<open>elapsedDurationMs\<close> is not given a default: the lookup raises.\<close>

lemma getMultiStageTimesWide_missing_key:
  "getMultiStageTimesWide [JDict [(JStr ''entryId'', JInt 1), (JStr ''stageId'', JInt 10)]]
     = Inl KeyError"
  by code_simp

section \<open>Flattening the itinerary and regrouping\<close>

lemma dict_find_store_same:
  "dict_find (dict_store d (JStr k) v) (JStr k) = Some v"
  by (induction d) (auto simp: scalar_eq_def)

lemma dict_find_store_other:
  "k' \<noteq> k \<Longrightarrow> dict_find (dict_store d (JStr k) v) (JStr k') = dict_find d (JStr k')"
  by (induction d) (auto simp: scalar_eq_def num_of_def split: json.splits)

lemma field_eq_annotated:
  "is_dict c \<Longrightarrow> field_eq (annotated sid c) ''itinerarySectionId'' w = py_eq sid w"
  by (cases c) (simp_all add: is_dict_def annotated_def field_eq_def getitem_def dict_find_store_same)

lemma getitem_annotated_other:
  "is_dict c \<Longrightarrow> k \<noteq> ''itinerarySectionId'' \<Longrightarrow> getitem (annotated sid c) k = getitem c k"
  by (cases c) (simp_all add: is_dict_def annotated_def getitem_def dict_find_store_other)

lemma annotate_children_wf:
  assumes "has_key s ''itinerarySectionId''" "\<forall>c \<in> set cs. is_dict c"
  shows "annotate_children cs s = Inr (map (annotated (get_or_None s ''itinerarySectionId'')) cs)"
  using assms
  by (induction cs)
     (auto simp: has_key_def get_or_None_def is_dict_def annotated_def setitem_def
           split: sum.splits json.splits)

lemma flatten_section_wf:
  assumes "\<forall>s \<in> set ss. section_record key s"
  shows "flatten_section ss key =
     Inr (concat (map (\<lambda>s. map (annotated (get_or_None s ''itinerarySectionId'')) (children_of s key)) ss))"
  using assms
proof (induction ss)
  case Nil
  then show ?case by simp
next
  case (Cons s ss)
  from Cons.prems have s: "section_record key s" by simp
  then obtain cs where cs: "getitem s key = Inr (JList cs)" "\<forall>c \<in> set cs. is_dict c"
    by (auto simp: section_record_def list_all_iff split: sum.splits json.splits)
  from s have k: "has_key s ''itinerarySectionId''" by (simp add: section_record_def)
  from Cons show ?case
    by (simp add: cs children_of_def py_iter_def annotate_children_wf [OF k cs(2)])
qed

lemma flatten_sections_wf:
  assumes "\<forall>v \<in> set sections. section_list key v"
  shows "flatten_sections sections key =
     Inr (concat (map (\<lambda>s. map (annotated (get_or_None s ''itinerarySectionId'')) (children_of s key))
            (all_sections sections)))"
  using assms
proof (induction sections)
  case Nil
  then show ?case by (simp add: all_sections_def)
next
  case (Cons v sections)
  from Cons.prems obtain ss where v: "v = JList ss" "\<forall>s \<in> set ss. section_record key s"
    by (auto simp: section_list_def list_all_iff split: json.splits)
  from Cons have IH: "flatten_sections sections key =
     Inr (concat (map (\<lambda>s. map (annotated (get_or_None s ''itinerarySectionId'')) (children_of s key))
            (all_sections sections)))" by simp
  show ?case
    by (simp add: v(1) py_iter_def flatten_section_wf [OF v(2)] IH all_sections_def)
qed

lemma concat_unique_hit:
  assumes "py_distinct (map f secs)" "t \<in> set secs"
  shows "concat (map (\<lambda>s. if py_eq (f s) (f t) then g s else []) secs) = g t"
  using assms
proof (induction secs)
  case Nil
  then show ?case by simp
next
  case (Cons s secs)
  show ?case
  proof (cases "py_eq (f s) (f t)")
    case True
    have "t \<notin> set secs"
    proof
      assume "t \<in> set secs"
      with Cons.prems(1) have "\<not> py_eq (f s) (f t)" by (auto simp: list_all_iff)
      with True show False by simp
    qed
    with Cons.prems(2) have ts: "t = s" by simp
    from Cons.prems(1) have "\<forall>r \<in> set secs. \<not> py_eq (f r) (f s)" by (auto simp: list_all_iff)
    then have "concat (map (\<lambda>r. if py_eq (f r) (f s) then g r else []) secs) = []"
      by (induction secs) auto
    with True ts show ?thesis by simp
  next
    case False
    with Cons.prems have "t \<in> set secs" by auto
    with Cons False show ?thesis by simp
  qed
qed

lemma filter_annotated:
  assumes "\<forall>c \<in> set cs. is_dict c"
  shows "filter (\<lambda>c. field_eq c ''itinerarySectionId'' w) (map (annotated sid) cs)
       = (if py_eq sid w then map (annotated sid) cs else [])"
  using assms by (induction cs) (simp_all add: field_eq_annotated)

lemma children_are_dicts:
  "section_record key s \<Longrightarrow> \<forall>c \<in> set (children_of s key). is_dict c"
  by (cases "getitem s key"; cases "projr (getitem s key)")
     (simp_all add: section_record_def children_of_def list_all_iff)

lemma all_sections_records:
  assumes "\<forall>v \<in> set sections. section_list key v"
  shows "\<forall>s \<in> set (all_sections sections). section_record key s"
  using assms
proof (induction sections)
  case Nil
  then show ?case by (simp add: all_sections_def)
next
  case (Cons v sections)
  from Cons.prems obtain ss where v: "v = JList ss" "\<forall>s \<in> set ss. section_record key s"
    by (cases v) (simp_all add: section_list_def list_all_iff)
  from Cons have "\<forall>s \<in> set (all_sections sections). section_record key s" by simp
  with v show ?case by (auto simp: all_sections_def)
qed

lemma group_of_flat:
  assumes wf: "\<forall>v \<in> set sections. section_list key v"
    and d: "py_distinct (map (\<lambda>s. get_or_None s ''itinerarySectionId'') (all_sections sections))"
    and t: "t \<in> set (all_sections sections)"
  shows "group_of (get_or_None t ''itinerarySectionId'')
           (concat (map (\<lambda>s. map (annotated (get_or_None s ''itinerarySectionId'')) (children_of s key))
              (all_sections sections)))
         = map (annotated (get_or_None t ''itinerarySectionId'')) (children_of t key)"
proof -
  define sid where "sid = (\<lambda>s. get_or_None s ''itinerarySectionId'')"
  define secs where "secs = all_sections sections"
  define g where "g = (\<lambda>s. map (annotated (sid s)) (children_of s key))"
  have dicts: "\<forall>s \<in> set secs. \<forall>c \<in> set (children_of s key). is_dict c"
    using all_sections_records [OF wf] children_are_dicts unfolding secs_def by blast
  have step: "map (\<lambda>s. filter (\<lambda>c. field_eq c ''itinerarySectionId'' (sid t)) (g s)) secs
            = map (\<lambda>s. if py_eq (sid s) (sid t) then g s else []) secs"
  proof (rule map_cong [OF refl])
    fix s assume "s \<in> set secs"
    with dicts have "\<forall>c \<in> set (children_of s key). is_dict c" by simp
    then show "filter (\<lambda>c. field_eq c ''itinerarySectionId'' (sid t)) (g s)
             = (if py_eq (sid s) (sid t) then g s else [])"
      unfolding g_def by (rule filter_annotated)
  qed
  have "group_of (sid t) (concat (map g secs))
      = concat (map (\<lambda>s. filter (\<lambda>c. field_eq c ''itinerarySectionId'' (sid t)) (g s)) secs)"
    by (simp only: group_of_def filter_concat map_map comp_def)
  also have "\<dots> = concat (map (\<lambda>s. if py_eq (sid s) (sid t) then g s else []) secs)"
    by (simp only: step)
  also have "\<dots> = g t"
    using d t unfolding sid_def secs_def by (rule concat_unique_hit)
  finally show ?thesis unfolding g_def sid_def secs_def .
qed

text \<open>
  C5. On a nested structure of section records whose section identifiers are pairwise
  different, \<open>getStages\<close> (resp. \<open>getControls\<close>) returns the stages (resp. controls) of
  all sections in order, each with the identifier of its section stored under
  \<open>itinerarySectionId\<close>; the records of the flat list that carry the identifier of a
  section are exactly the stages (resp. controls) of that section, in their order.
  Storing the identifier leaves every other key of a record as it was.
\<close>

theorem flatten_regroup_roundtrip:
  "(((\<forall>v \<in> set sections. section_list ''stages'' v) \<and>
     py_distinct (map (\<lambda>s. get_or_None s ''itinerarySectionId'') (all_sections sections))) \<longrightarrow>
      (\<exists>flat. getStages sections = Inr flat \<and>
         flat = concat (map (\<lambda>s. map (annotated (get_or_None s ''itinerarySectionId''))
                                    (children_of s ''stages'')) (all_sections sections)) \<and>
         (\<forall>s \<in> set (all_sections sections).
            group_of (get_or_None s ''itinerarySectionId'') flat =
              map (annotated (get_or_None s ''itinerarySectionId'')) (children_of s ''stages'')))) \<and>
   (((\<forall>v \<in> set sections. section_list ''controls'' v) \<and>
     py_distinct (map (\<lambda>s. get_or_None s ''itinerarySectionId'') (all_sections sections))) \<longrightarrow>
      (\<exists>flat. getControls sections = Inr flat \<and>
         flat = concat (map (\<lambda>s. map (annotated (get_or_None s ''itinerarySectionId''))
                                    (children_of s ''controls'')) (all_sections sections)) \<and>
         (\<forall>s \<in> set (all_sections sections).
            group_of (get_or_None s ''itinerarySectionId'') flat =
              map (annotated (get_or_None s ''itinerarySectionId'')) (children_of s ''controls'')))) \<and>
   (is_dict c \<longrightarrow> k \<noteq> ''itinerarySectionId'' \<longrightarrow> getitem (annotated sid c) k = getitem c k)"
proof (intro conjI impI)
  assume a: "(\<forall>v \<in> set sections. section_list ''stages'' v) \<and>
     py_distinct (map (\<lambda>s. get_or_None s ''itinerarySectionId'') (all_sections sections))"
  then have wf: "\<forall>v \<in> set sections. section_list ''stages'' v"
    and d: "py_distinct (map (\<lambda>s. get_or_None s ''itinerarySectionId'') (all_sections sections))"
    by simp_all
  show "\<exists>flat. getStages sections = Inr flat \<and>
         flat = concat (map (\<lambda>s. map (annotated (get_or_None s ''itinerarySectionId''))
                                    (children_of s ''stages'')) (all_sections sections)) \<and>
         (\<forall>s \<in> set (all_sections sections).
            group_of (get_or_None s ''itinerarySectionId'') flat =
              map (annotated (get_or_None s ''itinerarySectionId'')) (children_of s ''stages''))"
    using group_of_flat [OF wf d]
    by (simp add: getStages_def flatten_sections_wf [OF wf])
next
  assume a: "(\<forall>v \<in> set sections. section_list ''controls'' v) \<and>
     py_distinct (map (\<lambda>s. get_or_None s ''itinerarySectionId'') (all_sections sections))"
  then have wf: "\<forall>v \<in> set sections. section_list ''controls'' v"
    and d: "py_distinct (map (\<lambda>s. get_or_None s ''itinerarySectionId'') (all_sections sections))"
    by simp_all
  show "\<exists>flat. getControls sections = Inr flat \<and>
         flat = concat (map (\<lambda>s. map (annotated (get_or_None s ''itinerarySectionId''))
                                    (children_of s ''controls'')) (all_sections sections)) \<and>
         (\<forall>s \<in> set (all_sections sections).
            group_of (get_or_None s ''itinerarySectionId'') flat =
              map (annotated (get_or_None s ''itinerarySectionId'')) (children_of s ''controls''))"
    using group_of_flat [OF wf d]
    by (simp add: getControls_def flatten_sections_wf [OF wf])
next
  assume "is_dict c" "k \<noteq> ''itinerarySectionId''"
  then show "getitem (annotated sid c) k = getitem c k"
    by (rule getitem_annotated_other)
qed

theorem flatten_regroup_roundtrip_witness:
  "list_all (section_list ''stages'')
     [JList [JDict [(JStr ''itinerarySectionId'', JInt 5),
                    (JStr ''stages'', JList [JDict [(JStr ''stageId'', JInt 1)],
                                             JDict [(JStr ''stageId'', JInt 2)]])],
             JDict [(JStr ''itinerarySectionId'', JInt 6),
                    (JStr ''stages'', JList [JDict [(JStr ''stageId'', JInt 3)]])]],
      JList [JDict [(JStr ''itinerarySectionId'', JInt 7), (JStr ''stages'', JList [])]]] \<and>
   py_distinct [JInt 5, JInt 6, JInt 7] \<and>
   getStages
     [JList [JDict [(JStr ''itinerarySectionId'', JInt 5),
                    (JStr ''stages'', JList [JDict [(JStr ''stageId'', JInt 1)],
                                             JDict [(JStr ''stageId'', JInt 2)]])],
             JDict [(JStr ''itinerarySectionId'', JInt 6),
                    (JStr ''stages'', JList [JDict [(JStr ''stageId'', JInt 3)]])]],
      JList [JDict [(JStr ''itinerarySectionId'', JInt 7), (JStr ''stages'', JList [])]]]
   = Inr [JDict [(JStr ''stageId'', JInt 1), (JStr ''itinerarySectionId'', JInt 5)],
          JDict [(JStr ''stageId'', JInt 2), (JStr ''itinerarySectionId'', JInt 5)],
          JDict [(JStr ''stageId'', JInt 3), (JStr ''itinerarySectionId'', JInt 6)]] \<and>
   group_of (JInt 5)
     [JDict [(JStr ''stageId'', JInt 1), (JStr ''itinerarySectionId'', JInt 5)],
      JDict [(JStr ''stageId'', JInt 2), (JStr ''itinerarySectionId'', JInt 5)],
      JDict [(JStr ''stageId'', JInt 3), (JStr ''itinerarySectionId'', JInt 6)]]
   = [JDict [(JStr ''stageId'', JInt 1), (JStr ''itinerarySectionId'', JInt 5)],
      JDict [(JStr ''stageId'', JInt 2), (JStr ''itinerarySectionId'', JInt 5)]]"
proof -
  let ?s5 = "JDict [(JStr ''itinerarySectionId'', JInt 5),
                    (JStr ''stages'', JList [JDict [(JStr ''stageId'', JInt 1)],
                                             JDict [(JStr ''stageId'', JInt 2)]])]"
  let ?secs = "[JList [?s5,
             JDict [(JStr ''itinerarySectionId'', JInt 6),
                    (JStr ''stages'', JList [JDict [(JStr ''stageId'', JInt 3)]])]],
      JList [JDict [(JStr ''itinerarySectionId'', JInt 7), (JStr ''stages'', JList [])]]]"
  let ?flat = "[JDict [(JStr ''stageId'', JInt 1), (JStr ''itinerarySectionId'', JInt 5)],
          JDict [(JStr ''stageId'', JInt 2), (JStr ''itinerarySectionId'', JInt 5)],
          JDict [(JStr ''stageId'', JInt 3), (JStr ''itinerarySectionId'', JInt 6)]]"
  have h1: "list_all (section_list ''stages'') ?secs" by code_simp
  have ids: "map (\<lambda>s. get_or_None s ''itinerarySectionId'') (all_sections ?secs)
      = [JInt 5, JInt 6, JInt 7]" by code_simp
  have h2: "py_distinct [JInt 5, JInt 6, JInt 7]" by code_simp
  have m: "?s5 \<in> set (all_sections ?secs)" by (simp add: all_sections_def)
  have e: "concat (map (\<lambda>s. map (annotated (get_or_None s ''itinerarySectionId''))
                                    (children_of s ''stages'')) (all_sections ?secs)) = ?flat"
    by code_simp
  have g: "map (annotated (JInt 5)) (children_of ?s5 ''stages'')
      = [JDict [(JStr ''stageId'', JInt 1), (JStr ''itinerarySectionId'', JInt 5)],
         JDict [(JStr ''stageId'', JInt 2), (JStr ''itinerarySectionId'', JInt 5)]]"
    by code_simp
  have i: "get_or_None ?s5 ''itinerarySectionId'' = JInt 5" by code_simp
  from h1 have wf: "\<forall>v \<in> set ?secs. section_list ''stages'' v" by (simp only: list_all_iff)
  from flatten_regroup_roundtrip [of ?secs] wf h2 ids
  obtain flat where f: "getStages ?secs = Inr flat"
      "flat = concat (map (\<lambda>s. map (annotated (get_or_None s ''itinerarySectionId''))
                                    (children_of s ''stages'')) (all_sections ?secs))"
      "\<forall>s \<in> set (all_sections ?secs).
            group_of (get_or_None s ''itinerarySectionId'') flat =
              map (annotated (get_or_None s ''itinerarySectionId'')) (children_of s ''stages'')"
    by auto
  from f(2) e have fl: "flat = ?flat" by (simp only:)
  from f(3) m have "group_of (get_or_None ?s5 ''itinerarySectionId'') flat =
      map (annotated (get_or_None ?s5 ''itinerarySectionId'')) (children_of ?s5 ''stages'')"
    by blast
  then have "group_of (JInt 5) ?flat =
      [JDict [(JStr ''stageId'', JInt 1), (JStr ''itinerarySectionId'', JInt 5)],
       JDict [(JStr ''stageId'', JInt 2), (JStr ''itinerarySectionId'', JInt 5)]]"
    by (simp only: i g fl)
  with h1 h2 f(1) fl show ?thesis by (simp only:)
qed

section \<open>The start list of a section\<close>


lemma has_key_getitem: "has_key x key \<Longrightarrow> getitem x key = Inr (get_or_None x key)"
  by (simp add: has_key_def get_or_None_def split: sum.splits)

lemma find_append:
  "find P (xs @ ys) = (case find P xs of None \<Rightarrow> find P ys | Some x \<Rightarrow> Some x)"
  by (induction xs) simp_all

lemma leg_of_section_wf:
  assumes "\<forall>s \<in> set ss. leg_section_record s"
  shows "leg_of_section ss sid acc =
     Inr (case find (\<lambda>s. field_eq s ''itinerarySectionId'' sid) (rev ss) of
            None \<Rightarrow> acc
          | Some s \<Rightarrow> get_or_None s ''itineraryLegId'')"
  using assms
proof (induction ss arbitrary: acc)
  case Nil
  then show ?case by simp
next
  case (Cons s ss)
  from Cons.prems have k: "getitem s ''itinerarySectionId'' = Inr (get_or_None s ''itinerarySectionId'')"
    "getitem s ''itineraryLegId'' = Inr (get_or_None s ''itineraryLegId'')"
    by (simp_all add: leg_section_record_def has_key_getitem)
  from Cons.prems have IH: "\<And>acc. leg_of_section ss sid acc =
     Inr (case find (\<lambda>s. field_eq s ''itinerarySectionId'' sid) (rev ss) of
            None \<Rightarrow> acc
          | Some s \<Rightarrow> get_or_None s ''itineraryLegId'')"
    by (intro Cons.IH) simp
  show ?case
    by (simp add: k IH field_eq_def find_append split: option.splits)
qed

lemma leg_of_sections_wf:
  assumes "\<forall>v \<in> set sections. \<exists>ss. v = JList ss \<and> (\<forall>s \<in> set ss. leg_section_record s)"
  shows "leg_of_sections sections sid acc =
     Inr (case find (\<lambda>s. field_eq s ''itinerarySectionId'' sid)
                 (rev (concat (map (\<lambda>v. case v of JList ss \<Rightarrow> ss | _ \<Rightarrow> []) sections))) of
            None \<Rightarrow> acc
          | Some s \<Rightarrow> get_or_None s ''itineraryLegId'')"
  using assms
proof (induction sections arbitrary: acc)
  case Nil
  then show ?case by simp
next
  case (Cons v sections)
  from Cons.prems obtain ss where v: "v = JList ss" "\<forall>s \<in> set ss. leg_section_record s"
    by auto
  from Cons.prems have IH: "\<And>acc. leg_of_sections sections sid acc =
     Inr (case find (\<lambda>s. field_eq s ''itinerarySectionId'' sid)
                 (rev (concat (map (\<lambda>v. case v of JList ss \<Rightarrow> ss | _ \<Rightarrow> []) sections))) of
            None \<Rightarrow> acc
          | Some s \<Rightarrow> get_or_None s ''itineraryLegId'')"
    by (intro Cons.IH) simp
  show ?case
    by (simp add: v(1) py_iter_def leg_of_section_wf [OF v(2)] IH find_append
          split: option.splits)
qed

lemma startList_of_leg_wf:
  assumes "\<forall>item \<in> set itinerary. has_key item ''itineraryLegId'' \<and> has_key item ''startListId''"
  shows "startList_of_leg itinerary leg =
     Inr (case find (\<lambda>item. field_eq item ''itineraryLegId'' leg) itinerary of
            None \<Rightarrow> JNull
          | Some item \<Rightarrow> get_or_None item ''startListId'')"
  using assms
  by (induction itinerary) (auto simp: has_key_getitem field_eq_def)

lemma leg_record_sections:
  assumes "leg_record item"
  obtains ss where "getitem item ''itinerarySections'' = Inr (JList ss)"
    "\<forall>s \<in> set ss. leg_section_record s"
  using assms unfolding leg_record_def
  by (cases "getitem item ''itinerarySections''"; cases "projr (getitem item ''itinerarySections'')")
     (simp_all add: list_all_iff)

text \<open>
  On leg records \<open>getStartListId\<close> raises no error; its result is the one described by
  \<open>startListId_of\<close>.
\<close>

lemma getStartListId_on_records:
  assumes "\<forall>item \<in> set itinerary. leg_record item"
  shows "getStartListId itinerary sid = Inr (startListId_of itinerary sid)"
proof -
  have k: "\<forall>item \<in> set itinerary. has_key item ''itinerarySections''"
  proof
    fix item assume "item \<in> set itinerary"
    with assms have "leg_record item" by simp
    then show "has_key item ''itinerarySections''"
      by (rule leg_record_sections) (simp add: has_key_def)
  qed
  have secs: "\<forall>v \<in> set (map (\<lambda>x. get_or_None x ''itinerarySections'') itinerary).
      \<exists>ss. v = JList ss \<and> (\<forall>s \<in> set ss. leg_section_record s)"
  proof
    fix v assume "v \<in> set (map (\<lambda>x. get_or_None x ''itinerarySections'') itinerary)"
    then obtain item where i: "item \<in> set itinerary" "v = get_or_None item ''itinerarySections''"
      by auto
    with assms have "leg_record item" by simp
    then show "\<exists>ss. v = JList ss \<and> (\<forall>s \<in> set ss. leg_section_record s)"
      by (rule leg_record_sections) (simp add: i(2) get_or_None_def)
  qed
  have c: "map (\<lambda>v. case v of JList ss \<Rightarrow> ss | _ \<Rightarrow> [])
              (map (\<lambda>x. get_or_None x ''itinerarySections'') itinerary)
         = map (\<lambda>item. children_of item ''itinerarySections'') itinerary"
    by (simp add: get_or_None_def children_of_def split: sum.splits json.splits)
  from assms have l: "\<forall>item \<in> set itinerary.
      has_key item ''itineraryLegId'' \<and> has_key item ''startListId''"
    by (simp add: leg_record_def)
  let ?leg = "case find (\<lambda>s. field_eq s ''itinerarySectionId'' sid)
                 (rev (concat (map (\<lambda>item. children_of item ''itinerarySections'') itinerary))) of
            None \<Rightarrow> JNull
          | Some s \<Rightarrow> get_or_None s ''itineraryLegId''"
  have s1: "getSections itinerary = Inr (map (\<lambda>x. get_or_None x ''itinerarySections'') itinerary)"
    by (simp only: getSections_def getitems_wf [OF k])
  have s2: "leg_of_sections (map (\<lambda>x. get_or_None x ''itinerarySections'') itinerary) sid JNull
      = Inr ?leg"
    by (simp only: leg_of_sections_wf [OF secs] c)
  have s3: "startList_of_leg itinerary ?leg =
     Inr (case find (\<lambda>item. field_eq item ''itineraryLegId'' ?leg) itinerary of
            None \<Rightarrow> JNull
          | Some item \<Rightarrow> get_or_None item ''startListId'')"
    by (rule startList_of_leg_wf [OF l])
  have "getStartListId itinerary sid =
      (if \<not> truthy ?leg then Inr JNull else startList_of_leg itinerary ?leg)"
    by (simp only: getStartListId_def s1 s2 sum.case)
  also have "\<dots> = Inr (startListId_of itinerary sid)"
    unfolding s3 startListId_of_def Let_def
    by (cases "find (\<lambda>s. field_eq s ''itinerarySectionId'' sid)
                 (rev (concat (map (\<lambda>item. children_of item ''itinerarySections'') itinerary)))")
       (simp_all add: truthy_def)
  finally show ?thesis .
qed

text \<open>
  C4. \<open>getStartListId\<close> tests the leg identifier it found with \<open>if not itineraryLegId\<close>:
  a section whose leg has the identifier \<open>0\<close> is found, and the result is \<open>None\<close> all the
  same, although the leg has the start list \<open>7\<close>. With the leg identifier \<open>3\<close> in its
  place the result is \<open>7\<close>.
\<close>

theorem getStartListId_leg_zero:
  "getStartListId
     [JDict [(JStr ''itineraryLegId'', JInt 0), (JStr ''startListId'', JInt 7),
             (JStr ''itinerarySections'',
              JList [JDict [(JStr ''itinerarySectionId'', JInt 1),
                            (JStr ''itineraryLegId'', JInt 0)]])]] (JInt 1)
     = Inr JNull \<and>
   getStartListId
     [JDict [(JStr ''itineraryLegId'', JInt 3), (JStr ''startListId'', JInt 7),
             (JStr ''itinerarySections'',
              JList [JDict [(JStr ''itinerarySectionId'', JInt 1),
                            (JStr ''itineraryLegId'', JInt 3)]])]] (JInt 1)
     = Inr (JInt 7)"
  by code_simp

theorem getStartListId_leg_zero_witness:
  "getStartListId
     [JDict [(JStr ''itineraryLegId'', JInt 0), (JStr ''startListId'', JInt 7),
             (JStr ''itinerarySections'',
              JList [JDict [(JStr ''itinerarySectionId'', JInt 1),
                            (JStr ''itineraryLegId'', JInt 0)]])]] (JInt 1)
     \<noteq> Inr (JInt 7)"
  using getStartListId_leg_zero by simp

section \<open>The car data of an entry\<close>

lemma succeeds_iff: "succeeds r = (\<exists>v. r = Inr v)"
  by (cases r) (simp_all add: succeeds_def)

lemma ebind_Inr [simp]: "ebind (Inr v) f = f v"
  by (simp add: ebind_def)

lemma ebind_Inl [simp]: "ebind (Inl e) f = Inl e"
  by (simp add: ebind_def)

lemma ebind_eq_Inr: "ebind m f = Inr r \<longleftrightarrow> (\<exists>v. m = Inr v \<and> f v = Inr r)"
  by (cases m) simp_all

lemma scalar_eq_JStr [simp]: "scalar_eq (JStr a) (JStr b) = (a = b)"
  by (auto simp: scalar_eq_def)

lemma project_keys_Inr:
  "project_keys entry keys d = Inr r \<Longrightarrow> \<forall>key \<in> set keys. succeeds (getitem entry key)"
  by (induction keys arbitrary: d) (auto simp: ebind_eq_Inr succeeds_iff)

lemma getCarDataFromEntry_complete:
  assumes "complete_entry entry"
  shows "getCarDataFromEntry entry = Inr (car_data entry)"
proof -
  from assms obtain v1 v2 v3 v4 v5 v6 where top:
    "getitem entry ''entryId'' = Inr v1" "getitem entry ''driverId'' = Inr v2"
    "getitem entry ''codriverId'' = Inr v3" "getitem entry ''manufacturerId'' = Inr v4"
    "getitem entry ''vehicleModel'' = Inr v5" "getitem entry ''eligibility'' = Inr v6"
    by (auto simp: complete_entry_def succeeds_iff)
  from assms obtain c where c: "class_name entry = Inr c"
    by (auto simp: complete_entry_def succeeds_iff)
  from assms obtain w1 w2 w3 w4 w5 w6 w7 w8 where nested:
    "getitem2 entry ''manufacturer'' ''name'' = Inr w1" "getitem2 entry ''entrant'' ''name'' = Inr w2"
    "getitem2 entry ''group'' ''name'' = Inr w3" "getitem2 entry ''driver'' ''abbvName'' = Inr w4"
    "getitem2 entry ''driver'' ''fullName'' = Inr w5" "getitem2 entry ''codriver'' ''abbvName'' = Inr w6"
    "getitem2 entry ''codriver'' ''fullName'' = Inr w7" "getitem2 entry ''driver'' ''code'' = Inr w8"
    by (auto simp: complete_entry_def succeeds_iff)
  have p: "project_keys entry
              [''entryId'', ''driverId'', ''codriverId'', ''manufacturerId'',
               ''vehicleModel'', ''eligibility''] []
      = Inr [(JStr ''entryId'', v1), (JStr ''driverId'', v2), (JStr ''codriverId'', v3),
             (JStr ''manufacturerId'', v4), (JStr ''vehicleModel'', v5), (JStr ''eligibility'', v6)]"
    by (simp add: top)
  show ?thesis
    unfolding getCarDataFromEntry_def p class_name_def [symmetric] c nested car_data_def top
    by (simp add: value_of_def)
qed

lemma getCarDataFromEntry_Inr_complete:
  assumes "getCarDataFromEntry entry = Inr r"
  shows "complete_entry entry"
proof -
  from assms [unfolded getCarDataFromEntry_def class_name_def [symmetric]]
  obtain e0 where
    p: "project_keys entry [''entryId'', ''driverId'', ''codriverId'', ''manufacturerId'',
               ''vehicleModel'', ''eligibility''] [] = Inr e0"
    and rest: "succeeds (class_name entry)"
      "succeeds (getitem2 entry ''manufacturer'' ''name'')"
      "succeeds (getitem2 entry ''entrant'' ''name'')"
      "succeeds (getitem2 entry ''group'' ''name'')"
      "succeeds (getitem2 entry ''driver'' ''abbvName'')"
      "succeeds (getitem2 entry ''driver'' ''fullName'')"
      "succeeds (getitem2 entry ''codriver'' ''abbvName'')"
      "succeeds (getitem2 entry ''codriver'' ''fullName'')"
      "succeeds (getitem2 entry ''driver'' ''code'')"
    unfolding ebind_eq_Inr succeeds_iff by blast
  from project_keys_Inr [OF p] rest show ?thesis
    by (simp add: complete_entry_def list_all_iff)
qed

lemma ebind_eq_Inl: "ebind m f = Inl e \<longleftrightarrow> m = Inl e \<or> (\<exists>v. m = Inr v \<and> f v = Inl e)"
  by (cases m) simp_all

lemma getitem_dict_error: "is_dict x \<Longrightarrow> getitem x key = Inl e \<Longrightarrow> e = KeyError"
  by (cases x) (auto simp: is_dict_def getitem_def split: option.splits)

lemma getitem2_error:
  assumes "is_dict entry" "dict_if_present entry a" "getitem2 entry a b = Inl e"
  shows "e = KeyError"
proof (cases "getitem entry a")
  case (Inl e')
  with assms(3) have "e' = e" by (simp add: getitem2_def)
  with Inl assms(1) show ?thesis by (auto dest: getitem_dict_error)
next
  case (Inr v)
  with assms(2) have "is_dict v" by (simp add: dict_if_present_def)
  moreover from Inr assms(3) have "getitem v b = Inl e" by (simp add: getitem2_def)
  ultimately show ?thesis by (rule getitem_dict_error)
qed

lemma project_keys_error:
  "is_dict entry \<Longrightarrow> project_keys entry keys d = Inl e \<Longrightarrow> e = KeyError"
  by (induction keys arbitrary: d) (auto simp: ebind_eq_Inl dest: getitem_dict_error)

lemma project_keys_succeeds:
  "\<forall>key \<in> set keys. succeeds (getitem entry key) \<Longrightarrow> \<exists>r. project_keys entry keys d = Inr r"
  by (induction keys arbitrary: d) (auto simp: succeeds_iff)

lemma class_name_error:
  assumes "entry_record entry" "class_name entry = Inl e"
  shows "e = (if getitem entry ''eventClasses'' = Inr (JList []) then IndexError else KeyError)"
proof (cases "getitem entry ''eventClasses''")
  case (Inl e')
  with assms(2) have "e' = e" by (simp add: class_name_def)
  with Inl assms(1) show ?thesis by (auto simp: entry_record_def dest: getitem_dict_error)
next
  case (Inr v)
  with assms(1) obtain cs where cs: "v = JList cs" "\<forall>c \<in> set cs. is_dict c"
    by (cases v) (simp_all add: entry_record_def list_all_iff)
  show ?thesis
  proof (cases cs)
    case Nil
    with Inr cs assms(2) show ?thesis by (simp add: class_name_def getitem0_def)
  next
    case (Cons c cs')
    with cs have "is_dict c" by simp
    moreover from Inr cs Cons assms(2) have "getitem c ''name'' = Inl e"
      by (simp add: class_name_def getitem0_def)
    ultimately have "e = KeyError" by (rule getitem_dict_error)
    with Inr cs Cons show ?thesis by simp
  qed
qed

lemma class_name_empty:
  "getitem entry ''eventClasses'' = Inr (JList []) \<Longrightarrow> class_name entry = Inl IndexError"
  by (simp add: class_name_def getitem0_def)

lemma getCarDataFromEntry_incomplete:
  assumes rec: "entry_record entry" and inc: "\<not> complete_entry entry"
  shows "getCarDataFromEntry entry =
     (if list_all (\<lambda>key. succeeds (getitem entry key))
           [''entryId'', ''driverId'', ''codriverId'', ''manufacturerId'',
            ''vehicleModel'', ''eligibility''] \<and>
         getitem entry ''eventClasses'' = Inr (JList [])
      then Inl IndexError else Inl KeyError)"
proof -
  let ?keys = "[''entryId'', ''driverId'', ''codriverId'', ''manufacturerId'',
            ''vehicleModel'', ''eligibility'']"
  from rec have d: "is_dict entry"
    and sub: "dict_if_present entry ''manufacturer''" "dict_if_present entry ''entrant''"
      "dict_if_present entry ''group''" "dict_if_present entry ''driver''"
      "dict_if_present entry ''codriver''"
    by (simp_all add: entry_record_def)
  from inc getCarDataFromEntry_Inr_complete obtain e where e: "getCarDataFromEntry entry = Inl e"
    by (cases "getCarDataFromEntry entry") auto
  show ?thesis
  proof (cases "project_keys entry ?keys []")
    case (Inl e')
    then have "e' = KeyError" by (rule project_keys_error [OF d])
    moreover from Inl project_keys_succeeds [of ?keys entry "[]"]
    have "\<not> list_all (\<lambda>key. succeeds (getitem entry key)) ?keys"
      by (auto simp: list_all_iff)
    ultimately show ?thesis using Inl
      by (simp only: getCarDataFromEntry_def ebind_Inl if_False simp_thms)
  next
    case (Inr e0)
    from project_keys_Inr [OF Inr] have top: "list_all (\<lambda>key. succeeds (getitem entry key)) ?keys"
      by (simp only: list_all_iff)
    show ?thesis
    proof (cases "class_name entry")
      case (Inl e')
      from class_name_error [OF rec Inl] Inl Inr top show ?thesis
        by (simp only: getCarDataFromEntry_def class_name_def [symmetric] ebind_Inl ebind_Inr
              simp_thms split: if_splits)
    next
      case c: (Inr c)
      have ne: "getitem entry ''eventClasses'' \<noteq> Inr (JList [])"
        using c class_name_empty by fastforce
      from e [unfolded getCarDataFromEntry_def class_name_def [symmetric] Inr c ebind_Inr]
      have "e = KeyError"
        unfolding ebind_eq_Inl
        using getitem2_error [OF d sub(1)] getitem2_error [OF d sub(2)]
          getitem2_error [OF d sub(3)] getitem2_error [OF d sub(4)]
          getitem2_error [OF d sub(5)]
        by blast
      with e ne show ?thesis by simp
    qed
  qed
qed

text \<open>
  C3, as the code has it. When the entry has every field, \<open>getCarDataFromEntry\<close> returns
  the projected record of exactly the six core and nine display fields. When a field is
  missing it returns no record: it raises. On an entry record the exception is
  \<open>KeyError\<close>, except that an empty \<open>eventClasses\<close> list (with the six core keys present)
  raises \<open>IndexError\<close>.
\<close>

theorem getCarDataFromEntry_fail_fast:
  "(complete_entry entry \<longrightarrow> getCarDataFromEntry entry = Inr (car_data entry)) \<and>
   (\<not> complete_entry entry \<longrightarrow> (\<exists>err. getCarDataFromEntry entry = Inl err)) \<and>
   (entry_record entry \<and> \<not> complete_entry entry \<longrightarrow>
      getCarDataFromEntry entry =
        (if list_all (\<lambda>key. succeeds (getitem entry key))
              [''entryId'', ''driverId'', ''codriverId'', ''manufacturerId'',
               ''vehicleModel'', ''eligibility''] \<and>
            getitem entry ''eventClasses'' = Inr (JList [])
         then Inl IndexError else Inl KeyError))"
proof (intro conjI impI)
  assume "complete_entry entry"
  then show "getCarDataFromEntry entry = Inr (car_data entry)"
    by (rule getCarDataFromEntry_complete)
next
  assume "\<not> complete_entry entry"
  with getCarDataFromEntry_Inr_complete show "\<exists>err. getCarDataFromEntry entry = Inl err"
    by (cases "getCarDataFromEntry entry") auto
next
  assume "entry_record entry \<and> \<not> complete_entry entry"
  then show "getCarDataFromEntry entry =
        (if list_all (\<lambda>key. succeeds (getitem entry key))
              [''entryId'', ''driverId'', ''codriverId'', ''manufacturerId'',
               ''vehicleModel'', ''eligibility''] \<and>
            getitem entry ''eventClasses'' = Inr (JList [])
         then Inl IndexError else Inl KeyError)"
    by (intro getCarDataFromEntry_incomplete) simp_all
qed

theorem getCarDataFromEntry_fail_fast_witness:
  "complete_entry
     (JDict [(JStr ''entryId'', JInt 41), (JStr ''driverId'', JInt 7), (JStr ''codriverId'', JInt 8),
            (JStr ''manufacturerId'', JInt 3), (JStr ''vehicleModel'', JStr ''GR Yaris Rally1''),
            (JStr ''eligibility'', JStr ''M''),
            (JStr ''eventClasses'', JList [JDict [(JStr ''name'', JStr ''RC1'')]]),
            (JStr ''manufacturer'', JDict [(JStr ''name'', JStr ''Toyota'')]),
            (JStr ''entrant'', JDict [(JStr ''name'', JStr ''TGR WRT'')]),
            (JStr ''group'', JDict [(JStr ''name'', JStr ''Rally1'')]),
            (JStr ''driver'', JDict [(JStr ''abbvName'', JStr ''S. OGIER''),
                                     (JStr ''fullName'', JStr ''Sebastien OGIER''),
                                     (JStr ''code'', JStr ''OGI'')]),
            (JStr ''codriver'', JDict [(JStr ''abbvName'', JStr ''V. LANDAIS''),
                                       (JStr ''fullName'', JStr ''Vincent LANDAIS'')])]) \<and>
   getCarDataFromEntry
     (JDict [(JStr ''entryId'', JInt 41), (JStr ''driverId'', JInt 7), (JStr ''codriverId'', JInt 8),
            (JStr ''manufacturerId'', JInt 3), (JStr ''vehicleModel'', JStr ''GR Yaris Rally1''),
            (JStr ''eligibility'', JStr ''M''),
            (JStr ''eventClasses'', JList [JDict [(JStr ''name'', JStr ''RC1'')]]),
            (JStr ''manufacturer'', JDict [(JStr ''name'', JStr ''Toyota'')]),
            (JStr ''entrant'', JDict [(JStr ''name'', JStr ''TGR WRT'')]),
            (JStr ''group'', JDict [(JStr ''name'', JStr ''Rally1'')]),
            (JStr ''driver'', JDict [(JStr ''abbvName'', JStr ''S. OGIER''),
                                     (JStr ''fullName'', JStr ''Sebastien OGIER''),
                                     (JStr ''code'', JStr ''OGI'')]),
            (JStr ''codriver'', JDict [(JStr ''abbvName'', JStr ''V. LANDAIS''),
                                       (JStr ''fullName'', JStr ''Vincent LANDAIS'')])])
   = Inr (JDict [(JStr ''entryId'', JInt 41), (JStr ''driverId'', JInt 7), (JStr ''codriverId'', JInt 8),
            (JStr ''manufacturerId'', JInt 3), (JStr ''vehicleModel'', JStr ''GR Yaris Rally1''),
            (JStr ''eligibility'', JStr ''M''), (JStr ''classname'', JStr ''RC1''),
            (JStr ''manufacturer'', JStr ''Toyota''), (JStr ''entrantname'', JStr ''TGR WRT''),
            (JStr ''groupname'', JStr ''Rally1''), (JStr ''drivername'', JStr ''S. OGIER''),
            (JStr ''driverfullname'', JStr ''Sebastien OGIER''),
            (JStr ''codrivername'', JStr ''V. LANDAIS''),
            (JStr ''codriverfullname'', JStr ''Vincent LANDAIS''), (JStr ''code'', JStr ''OGI'')]) \<and>
   entry_record
     (JDict [(JStr ''entryId'', JInt 41), (JStr ''driverId'', JInt 7), (JStr ''codriverId'', JInt 8),
            (JStr ''manufacturerId'', JInt 3), (JStr ''vehicleModel'', JStr ''GR Yaris Rally1''),
            (JStr ''eligibility'', JStr ''M''),
            (JStr ''eventClasses'', JList [JDict [(JStr ''name'', JStr ''RC1'')]]),
            (JStr ''manufacturer'', JDict [(JStr ''name'', JStr ''Toyota'')]),
            (JStr ''entrant'', JDict [(JStr ''name'', JStr ''TGR WRT'')]),
            (JStr ''group'', JDict [(JStr ''name'', JStr ''Rally1'')]),
            (JStr ''driver'', JDict [(JStr ''abbvName'', JStr ''S. OGIER''),
                                     (JStr ''fullName'', JStr ''Sebastien OGIER'')]),
            (JStr ''codriver'', JDict [(JStr ''abbvName'', JStr ''V. LANDAIS''),
                                       (JStr ''fullName'', JStr ''Vincent LANDAIS'')])]) \<and>
   \<not> complete_entry
     (JDict [(JStr ''entryId'', JInt 41), (JStr ''driverId'', JInt 7), (JStr ''codriverId'', JInt 8),
            (JStr ''manufacturerId'', JInt 3), (JStr ''vehicleModel'', JStr ''GR Yaris Rally1''),
            (JStr ''eligibility'', JStr ''M''),
            (JStr ''eventClasses'', JList [JDict [(JStr ''name'', JStr ''RC1'')]]),
            (JStr ''manufacturer'', JDict [(JStr ''name'', JStr ''Toyota'')]),
            (JStr ''entrant'', JDict [(JStr ''name'', JStr ''TGR WRT'')]),
            (JStr ''group'', JDict [(JStr ''name'', JStr ''Rally1'')]),
            (JStr ''driver'', JDict [(JStr ''abbvName'', JStr ''S. OGIER''),
                                     (JStr ''fullName'', JStr ''Sebastien OGIER'')]),
            (JStr ''codriver'', JDict [(JStr ''abbvName'', JStr ''V. LANDAIS''),
                                       (JStr ''fullName'', JStr ''Vincent LANDAIS'')])]) \<and>
   getCarDataFromEntry
     (JDict [(JStr ''entryId'', JInt 41), (JStr ''driverId'', JInt 7), (JStr ''codriverId'', JInt 8),
            (JStr ''manufacturerId'', JInt 3), (JStr ''vehicleModel'', JStr ''GR Yaris Rally1''),
            (JStr ''eligibility'', JStr ''M''),
            (JStr ''eventClasses'', JList [JDict [(JStr ''name'', JStr ''RC1'')]]),
            (JStr ''manufacturer'', JDict [(JStr ''name'', JStr ''Toyota'')]),
            (JStr ''entrant'', JDict [(JStr ''name'', JStr ''TGR WRT'')]),
            (JStr ''group'', JDict [(JStr ''name'', JStr ''Rally1'')]),
            (JStr ''driver'', JDict [(JStr ''abbvName'', JStr ''S. OGIER''),
                                     (JStr ''fullName'', JStr ''Sebastien OGIER'')]),
            (JStr ''codriver'', JDict [(JStr ''abbvName'', JStr ''V. LANDAIS''),
                                       (JStr ''fullName'', JStr ''Vincent LANDAIS'')])])
   = Inl KeyError"
proof -
  let ?e1 = "JDict [(JStr ''entryId'', JInt 41), (JStr ''driverId'', JInt 7), (JStr ''codriverId'', JInt 8),
            (JStr ''manufacturerId'', JInt 3), (JStr ''vehicleModel'', JStr ''GR Yaris Rally1''),
            (JStr ''eligibility'', JStr ''M''),
            (JStr ''eventClasses'', JList [JDict [(JStr ''name'', JStr ''RC1'')]]),
            (JStr ''manufacturer'', JDict [(JStr ''name'', JStr ''Toyota'')]),
            (JStr ''entrant'', JDict [(JStr ''name'', JStr ''TGR WRT'')]),
            (JStr ''group'', JDict [(JStr ''name'', JStr ''Rally1'')]),
            (JStr ''driver'', JDict [(JStr ''abbvName'', JStr ''S. OGIER''),
                                     (JStr ''fullName'', JStr ''Sebastien OGIER''),
                                     (JStr ''code'', JStr ''OGI'')]),
            (JStr ''codriver'', JDict [(JStr ''abbvName'', JStr ''V. LANDAIS''),
                                       (JStr ''fullName'', JStr ''Vincent LANDAIS'')])]"
  let ?e2 = "JDict [(JStr ''entryId'', JInt 41), (JStr ''driverId'', JInt 7), (JStr ''codriverId'', JInt 8),
            (JStr ''manufacturerId'', JInt 3), (JStr ''vehicleModel'', JStr ''GR Yaris Rally1''),
            (JStr ''eligibility'', JStr ''M''),
            (JStr ''eventClasses'', JList [JDict [(JStr ''name'', JStr ''RC1'')]]),
            (JStr ''manufacturer'', JDict [(JStr ''name'', JStr ''Toyota'')]),
            (JStr ''entrant'', JDict [(JStr ''name'', JStr ''TGR WRT'')]),
            (JStr ''group'', JDict [(JStr ''name'', JStr ''Rally1'')]),
            (JStr ''driver'', JDict [(JStr ''abbvName'', JStr ''S. OGIER''),
                                     (JStr ''fullName'', JStr ''Sebastien OGIER'')]),
            (JStr ''codriver'', JDict [(JStr ''abbvName'', JStr ''V. LANDAIS''),
                                       (JStr ''fullName'', JStr ''Vincent LANDAIS'')])]"
  have c1: "complete_entry ?e1" by code_simp
  have v1: "car_data ?e1 = JDict [(JStr ''entryId'', JInt 41), (JStr ''driverId'', JInt 7), (JStr ''codriverId'', JInt 8),
            (JStr ''manufacturerId'', JInt 3), (JStr ''vehicleModel'', JStr ''GR Yaris Rally1''),
            (JStr ''eligibility'', JStr ''M''), (JStr ''classname'', JStr ''RC1''),
            (JStr ''manufacturer'', JStr ''Toyota''), (JStr ''entrantname'', JStr ''TGR WRT''),
            (JStr ''groupname'', JStr ''Rally1''), (JStr ''drivername'', JStr ''S. OGIER''),
            (JStr ''driverfullname'', JStr ''Sebastien OGIER''),
            (JStr ''codrivername'', JStr ''V. LANDAIS''),
            (JStr ''codriverfullname'', JStr ''Vincent LANDAIS''), (JStr ''code'', JStr ''OGI'')]" by code_simp
  have r2: "entry_record ?e2" by code_simp
  have c2: "\<not> complete_entry ?e2" by code_simp
  have k2: "getitem ?e2 ''eventClasses'' \<noteq> Inr (JList [])" by code_simp
  from getCarDataFromEntry_fail_fast [of ?e1] c1 v1
  have a: "getCarDataFromEntry ?e1 = Inr (JDict [(JStr ''entryId'', JInt 41), (JStr ''driverId'', JInt 7), (JStr ''codriverId'', JInt 8),
            (JStr ''manufacturerId'', JInt 3), (JStr ''vehicleModel'', JStr ''GR Yaris Rally1''),
            (JStr ''eligibility'', JStr ''M''), (JStr ''classname'', JStr ''RC1''),
            (JStr ''manufacturer'', JStr ''Toyota''), (JStr ''entrantname'', JStr ''TGR WRT''),
            (JStr ''groupname'', JStr ''Rally1''), (JStr ''drivername'', JStr ''S. OGIER''),
            (JStr ''driverfullname'', JStr ''Sebastien OGIER''),
            (JStr ''codrivername'', JStr ''V. LANDAIS''),
            (JStr ''codriverfullname'', JStr ''Vincent LANDAIS''), (JStr ''code'', JStr ''OGI'')])"
    by (simp only:)
  from getCarDataFromEntry_fail_fast [of ?e2] r2 c2 k2
  have b: "getCarDataFromEntry ?e2 = Inl KeyError"
    by (simp only: simp_thms if_False)
  from c1 a r2 c2 b show ?thesis by (simp only: simp_thms)
qed

text \<open>
  The claim of C3 as stated, at an entry that lacks \<open>eventClasses[0].name\<close> because its
  \<open>eventClasses\<close> list is empty: the error is \<open>IndexError\<close>, not the missing-key error.
\<close>

theorem getCarDataFromEntry_empty_classes_counterexample:
  "entry_record
     (JDict [(JStr ''entryId'', JInt 41), (JStr ''driverId'', JInt 7), (JStr ''codriverId'', JInt 8),
            (JStr ''manufacturerId'', JInt 3), (JStr ''vehicleModel'', JStr ''GR Yaris Rally1''),
            (JStr ''eligibility'', JStr ''M''),
            (JStr ''eventClasses'', JList []),
            (JStr ''manufacturer'', JDict [(JStr ''name'', JStr ''Toyota'')]),
            (JStr ''entrant'', JDict [(JStr ''name'', JStr ''TGR WRT'')]),
            (JStr ''group'', JDict [(JStr ''name'', JStr ''Rally1'')]),
            (JStr ''driver'', JDict [(JStr ''abbvName'', JStr ''S. OGIER''),
                                     (JStr ''fullName'', JStr ''Sebastien OGIER''),
                                     (JStr ''code'', JStr ''OGI'')]),
            (JStr ''codriver'', JDict [(JStr ''abbvName'', JStr ''V. LANDAIS''),
                                       (JStr ''fullName'', JStr ''Vincent LANDAIS'')])]) \<and>
   \<not> complete_entry
     (JDict [(JStr ''entryId'', JInt 41), (JStr ''driverId'', JInt 7), (JStr ''codriverId'', JInt 8),
            (JStr ''manufacturerId'', JInt 3), (JStr ''vehicleModel'', JStr ''GR Yaris Rally1''),
            (JStr ''eligibility'', JStr ''M''),
            (JStr ''eventClasses'', JList []),
            (JStr ''manufacturer'', JDict [(JStr ''name'', JStr ''Toyota'')]),
            (JStr ''entrant'', JDict [(JStr ''name'', JStr ''TGR WRT'')]),
            (JStr ''group'', JDict [(JStr ''name'', JStr ''Rally1'')]),
            (JStr ''driver'', JDict [(JStr ''abbvName'', JStr ''S. OGIER''),
                                     (JStr ''fullName'', JStr ''Sebastien OGIER''),
                                     (JStr ''code'', JStr ''OGI'')]),
            (JStr ''codriver'', JDict [(JStr ''abbvName'', JStr ''V. LANDAIS''),
                                       (JStr ''fullName'', JStr ''Vincent LANDAIS'')])]) \<and>
   getCarDataFromEntry
     (JDict [(JStr ''entryId'', JInt 41), (JStr ''driverId'', JInt 7), (JStr ''codriverId'', JInt 8),
            (JStr ''manufacturerId'', JInt 3), (JStr ''vehicleModel'', JStr ''GR Yaris Rally1''),
            (JStr ''eligibility'', JStr ''M''),
            (JStr ''eventClasses'', JList []),
            (JStr ''manufacturer'', JDict [(JStr ''name'', JStr ''Toyota'')]),
            (JStr ''entrant'', JDict [(JStr ''name'', JStr ''TGR WRT'')]),
            (JStr ''group'', JDict [(JStr ''name'', JStr ''Rally1'')]),
            (JStr ''driver'', JDict [(JStr ''abbvName'', JStr ''S. OGIER''),
                                     (JStr ''fullName'', JStr ''Sebastien OGIER''),
                                     (JStr ''code'', JStr ''OGI'')]),
            (JStr ''codriver'', JDict [(JStr ''abbvName'', JStr ''V. LANDAIS''),
                                       (JStr ''fullName'', JStr ''Vincent LANDAIS'')])])
   = Inl IndexError \<and>
   getCarDataFromEntry
     (JDict [(JStr ''entryId'', JInt 41), (JStr ''driverId'', JInt 7), (JStr ''codriverId'', JInt 8),
            (JStr ''manufacturerId'', JInt 3), (JStr ''vehicleModel'', JStr ''GR Yaris Rally1''),
            (JStr ''eligibility'', JStr ''M''),
            (JStr ''eventClasses'', JList []),
            (JStr ''manufacturer'', JDict [(JStr ''name'', JStr ''Toyota'')]),
            (JStr ''entrant'', JDict [(JStr ''name'', JStr ''TGR WRT'')]),
            (JStr ''group'', JDict [(JStr ''name'', JStr ''Rally1'')]),
            (JStr ''driver'', JDict [(JStr ''abbvName'', JStr ''S. OGIER''),
                                     (JStr ''fullName'', JStr ''Sebastien OGIER''),
                                     (JStr ''code'', JStr ''OGI'')]),
            (JStr ''codriver'', JDict [(JStr ''abbvName'', JStr ''V. LANDAIS''),
                                       (JStr ''fullName'', JStr ''Vincent LANDAIS'')])])
   \<noteq> Inl KeyError"
  by code_simp

section \<open>The aggregates over several stages\<close>


lemma list_response_iff: "list_response r = (\<exists>ps. r = Inr (JList ps))"
  by (cases r; cases "projr r") (simp_all add: list_response_def)

lemma records_response_iff:
  "records_response r = (\<exists>ps. r = Inr (JList ps) \<and> (\<forall>p \<in> set ps. is_dict p))"
  by (cases r; cases "projr r") (simp_all add: records_response_def list_all_iff)

lemma stage_times_results_ok:
  assumes "run_requests get w (map (stage_times_url eventId) stageList) = (rs, w')"
    and "\<forall>r \<in> set rs. succeeds r"
  shows "stage_times_results get eventId stageList w = (Inr (map value_of rs), w')"
  using assms
proof (induction stageList arbitrary: w rs w')
  case Nil
  then show ?case by simp
next
  case (Cons stage stageList)
  obtain r w1 where g: "get w (stage_times_url eventId stage) = (r, w1)"
    by (cases "get w (stage_times_url eventId stage)")
  obtain rs1 w2 where rr: "run_requests get w1 (map (stage_times_url eventId) stageList) = (rs1, w2)"
    by (cases "run_requests get w1 (map (stage_times_url eventId) stageList)")
  from Cons.prems(1) g rr have eq: "rs = r # rs1" "w' = w2" by simp_all
  with Cons.prems(2) obtain v where v: "r = Inr v" by (auto simp: succeeds_iff)
  from eq Cons.prems(2) have "\<forall>r \<in> set rs1. succeeds r" by simp
  from Cons.IH [OF rr this]
  show ?case by (simp add: getStageTimes_def g v eq value_of_def)
qed

lemma flatten_results_ok:
  assumes "\<forall>r \<in> set rs. list_response r"
  shows "flatten_results (map value_of rs) = Inr (concat (map body_list rs))"
  using assms
  by (induction rs)
     (auto simp: list_response_iff value_of_def body_list_def py_iter_def)

lemma stage_times_results_abort:
  assumes "run_requests get w (map (stage_times_url eventId) (take (Suc k) stageList)) = (rs, w')"
    and "k < length stageList" and "\<forall>j < k. succeeds (rs ! j)" and "rs ! k = Inl e"
  shows "stage_times_results get eventId stageList w = (Inl e, w')"
  using assms
proof (induction stageList arbitrary: w rs k w')
  case Nil
  then show ?case by simp
next
  case (Cons stage stageList)
  obtain r w1 where g: "get w (stage_times_url eventId stage) = (r, w1)"
    by (cases "get w (stage_times_url eventId stage)")
  show ?case
  proof (cases k)
    case 0
    with Cons.prems(1) g have "rs = [r]" "w' = w1" by simp_all
    with Cons.prems(4) 0 have "r = Inl e" by simp
    with g \<open>w' = w1\<close> show ?thesis by (simp add: getStageTimes_def)
  next
    case (Suc k')
    obtain rs1 w2 where rr:
      "run_requests get w1 (map (stage_times_url eventId) (take (Suc k') stageList)) = (rs1, w2)"
      by (cases "run_requests get w1 (map (stage_times_url eventId) (take (Suc k') stageList))")
    from Cons.prems(1) g rr Suc have eq: "rs = r # rs1" "w' = w2" by simp_all
    from Cons.prems(3) Suc eq have "succeeds r" by auto
    then obtain v where v: "r = Inr v" by (auto simp: succeeds_iff)
    from Cons.prems(2) Suc have k': "k' < length stageList" by simp
    from Cons.prems(3) Suc eq have s: "\<forall>j < k'. succeeds (rs1 ! j)" by auto
    from Cons.prems(4) Suc eq have f: "rs1 ! k' = Inl e" by simp
    from Cons.IH [OF rr k' s f]
    show ?thesis by (simp add: getStageTimes_def g v eq)
  qed
qed

lemma with_stageId_all_dicts:
  assumes "\<forall>p \<in> set ps. is_dict p"
  shows "with_stageId_all ps stage = Inr (map (stamped stage) ps)"
  using assms
proof (induction ps)
  case Nil
  then show ?case by simp
next
  case (Cons p ps)
  then obtain d where "p = JDict d" by (cases p) (simp_all add: is_dict_def)
  with Cons show ?case by (simp add: with_stageId_def py_dict_def stamped_def)
qed

lemma run_requests_length:
  "run_requests get w urls = (rs, w') \<Longrightarrow> length rs = length urls"
  by (induction urls arbitrary: w rs w') (auto split: prod.splits)

lemma overall_results_ok:
  assumes "run_requests get w (map (overall_url eventId) stageList) = (rs, w')"
    and "\<forall>r \<in> set rs. records_response r"
  shows "overall_results get eventId stageList w =
     (Inr (map (\<lambda>(stage, r). map (stamped stage) (body_list r)) (zip stageList rs)), w')"
  using assms
proof (induction stageList arbitrary: w rs w')
  case Nil
  then show ?case by simp
next
  case (Cons stage stageList)
  obtain r w1 where g: "get w (overall_url eventId stage) = (r, w1)"
    by (cases "get w (overall_url eventId stage)")
  obtain rs1 w2 where rr: "run_requests get w1 (map (overall_url eventId) stageList) = (rs1, w2)"
    by (cases "run_requests get w1 (map (overall_url eventId) stageList)")
  from Cons.prems(1) g rr have eq: "rs = r # rs1" "w' = w2" by simp_all
  with Cons.prems(2) obtain ps where ps: "r = Inr (JList ps)" "\<forall>p \<in> set ps. is_dict p"
    by (auto simp: records_response_iff)
  from eq Cons.prems(2) have "\<forall>r \<in> set rs1. records_response r" by simp
  from Cons.IH [OF rr this]
  show ?case
    by (simp add: getOverallResult_def g ps(1) eq py_iter_def with_stageId_all_dicts [OF ps(2)]
          body_list_def)
qed

lemma overall_results_abort:
  assumes "run_requests get w (map (overall_url eventId) (take (Suc k) stageList)) = (rs, w')"
    and "k < length stageList" and "\<forall>j < k. records_response (rs ! j)" and "rs ! k = Inl e"
  shows "overall_results get eventId stageList w = (Inl e, w')"
  using assms
proof (induction stageList arbitrary: w rs k w')
  case Nil
  then show ?case by simp
next
  case (Cons stage stageList)
  obtain r w1 where g: "get w (overall_url eventId stage) = (r, w1)"
    by (cases "get w (overall_url eventId stage)")
  show ?case
  proof (cases k)
    case 0
    with Cons.prems(1) g have "rs = [r]" "w' = w1" by simp_all
    with Cons.prems(4) 0 have "r = Inl e" by simp
    with g \<open>w' = w1\<close> show ?thesis by (simp add: getOverallResult_def)
  next
    case (Suc k')
    obtain rs1 w2 where rr:
      "run_requests get w1 (map (overall_url eventId) (take (Suc k') stageList)) = (rs1, w2)"
      by (cases "run_requests get w1 (map (overall_url eventId) (take (Suc k') stageList))")
    from Cons.prems(1) g rr Suc have eq: "rs = r # rs1" "w' = w2" by simp_all
    from Cons.prems(3) Suc eq have "records_response r" by auto
    then obtain ps where ps: "r = Inr (JList ps)" "\<forall>p \<in> set ps. is_dict p"
      by (auto simp: records_response_iff)
    from Cons.prems(2) Suc have k': "k' < length stageList" by simp
    from Cons.prems(3) Suc eq have s: "\<forall>j < k'. records_response (rs1 ! j)" by auto
    from Cons.prems(4) Suc eq have f: "rs1 ! k' = Inl e" by simp
    from Cons.IH [OF rr k' s f]
    show ?thesis
      by (simp add: getOverallResult_def g ps(1) eq py_iter_def with_stageId_all_dicts [OF ps(2)])
  qed
qed

lemma getitem_stamped:
  "is_dict pos \<Longrightarrow> getitem (stamped stageId pos) ''stageId'' = Inr (JInt stageId)"
  by (cases pos) (simp_all add: is_dict_def stamped_def getitem_def dict_find_store_same)

text \<open>
  C8. The requests are sent in the order of the stage list. When every response is a
  list, \<open>getMultipleStageTimes\<close> returns the concatenation of the responses in that order;
  when every response is a list of records, \<open>getMultipleOverall\<close> returns the
  concatenation of the responses with the stage identifier of the request stored in each
  record under \<open>stageId\<close>. When the first \<open>k\<close> requests succeed and the next one fails,
  the aggregate fails with that error, and no further request is sent: the world is left
  as it is after the failing request.
\<close>

theorem multi_stage_concat_or_abort:
  "(\<forall>rs w'. run_requests get w (map (stage_times_url eventId) stageList) = (rs, w') \<and>
        list_all list_response rs \<longrightarrow>
      getMultipleStageTimes get eventId stageList w = (Inr (concat (map body_list rs)), w')) \<and>
   (\<forall>rs w'. run_requests get w (map (overall_url eventId) stageList) = (rs, w') \<and>
        list_all records_response rs \<longrightarrow>
      getMultipleOverall get eventId stageList w =
        (Inr (concat (map (\<lambda>(stage, r). map (stamped stage) (body_list r)) (zip stageList rs))),
         w')) \<and>
   (is_dict pos \<longrightarrow> getitem (stamped stageId pos) ''stageId'' = Inr (JInt stageId)) \<and>
   (\<forall>rs w' e. run_requests get w (map (stage_times_url eventId) (take (Suc k) stageList)) = (rs, w') \<and>
        k < length stageList \<and> list_all succeeds (take k rs) \<and> rs ! k = Inl e \<longrightarrow>
      getMultipleStageTimes get eventId stageList w = (Inl e, w')) \<and>
   (\<forall>rs w' e. run_requests get w (map (overall_url eventId) (take (Suc k) stageList)) = (rs, w') \<and>
        k < length stageList \<and> list_all records_response (take k rs) \<and> rs ! k = Inl e \<longrightarrow>
      getMultipleOverall get eventId stageList w = (Inl e, w'))"
proof (intro conjI allI impI)
  fix rs w'
  assume a: "run_requests get w (map (stage_times_url eventId) stageList) = (rs, w') \<and>
        list_all list_response rs"
  then have l: "\<forall>r \<in> set rs. list_response r" by (simp add: list_all_iff)
  then have "\<forall>r \<in> set rs. succeeds r" by (auto simp: list_response_iff succeeds_iff)
  with a have "stage_times_results get eventId stageList w = (Inr (map value_of rs), w')"
    by (intro stage_times_results_ok) simp_all
  then show "getMultipleStageTimes get eventId stageList w = (Inr (concat (map body_list rs)), w')"
    by (simp add: getMultipleStageTimes_def flatten_results_ok [OF l])
next
  fix rs w'
  assume a: "run_requests get w (map (overall_url eventId) stageList) = (rs, w') \<and>
        list_all records_response rs"
  then have "\<forall>r \<in> set rs. records_response r" by (simp add: list_all_iff)
  with a have "overall_results get eventId stageList w =
     (Inr (map (\<lambda>(stage, r). map (stamped stage) (body_list r)) (zip stageList rs)), w')"
    by (intro overall_results_ok) simp_all
  then show "getMultipleOverall get eventId stageList w =
        (Inr (concat (map (\<lambda>(stage, r). map (stamped stage) (body_list r)) (zip stageList rs))),
         w')"
    by (simp add: getMultipleOverall_def)
next
  assume "is_dict pos"
  then show "getitem (stamped stageId pos) ''stageId'' = Inr (JInt stageId)"
    by (rule getitem_stamped)
next
  fix rs w' e
  assume a: "run_requests get w (map (stage_times_url eventId) (take (Suc k) stageList)) = (rs, w') \<and>
        k < length stageList \<and> list_all succeeds (take k rs) \<and> rs ! k = Inl e"
  then have len: "length rs = Suc k"
    using run_requests_length [of get w "map (stage_times_url eventId) (take (Suc k) stageList)" rs w']
    by simp
  with a have s: "\<forall>j < k. succeeds (rs ! j)"
    by (auto simp: list_all_length)
  from a have r: "run_requests get w (map (stage_times_url eventId) (take (Suc k) stageList)) = (rs, w')"
    and k: "k < length stageList" and f: "rs ! k = Inl e" by blast+
  have "stage_times_results get eventId stageList w = (Inl e, w')"
    by (rule stage_times_results_abort [OF r k s f])
  then show "getMultipleStageTimes get eventId stageList w = (Inl e, w')"
    by (simp add: getMultipleStageTimes_def)
next
  fix rs w' e
  assume a: "run_requests get w (map (overall_url eventId) (take (Suc k) stageList)) = (rs, w') \<and>
        k < length stageList \<and> list_all records_response (take k rs) \<and> rs ! k = Inl e"
  then have len: "length rs = Suc k"
    using run_requests_length [of get w "map (overall_url eventId) (take (Suc k) stageList)" rs w']
    by simp
  with a have s: "\<forall>j < k. records_response (rs ! j)"
    by (auto simp: list_all_length)
  from a have r: "run_requests get w (map (overall_url eventId) (take (Suc k) stageList)) = (rs, w')"
    and k: "k < length stageList" and f: "rs ! k = Inl e" by blast+
  have "overall_results get eventId stageList w = (Inl e, w')"
    by (rule overall_results_abort [OF r k s f])
  then show "getMultipleOverall get eventId stageList w = (Inl e, w')"
    by (simp add: getMultipleOverall_def)
qed

theorem multi_stage_concat_or_abort_witness:
  "getMultipleStageTimes stub_get 153 [1, 2] [] =
     (Inr [JDict [(JStr ''entryId'', JInt 1)], JDict [(JStr ''entryId'', JInt 2)],
           JDict [(JStr ''entryId'', JInt 2)]],
      [stage_times_url 153 1, stage_times_url 153 2]) \<and>
   getMultipleOverall stub_get 153 [1, 2] [] =
     (Inr [JDict [(JStr ''entryId'', JInt 1), (JStr ''stageId'', JInt 1)],
           JDict [(JStr ''entryId'', JInt 2), (JStr ''stageId'', JInt 2)]],
      [overall_url 153 1, overall_url 153 2]) \<and>
   getMultipleStageTimes stub_get 153 [1, 3, 2] [] =
     (Inl RequestError, [stage_times_url 153 1, stage_times_url 153 3]) \<and>
   getMultipleOverall stub_get 153 [1, 3, 2] [] =
     (Inl RequestError, [overall_url 153 1, overall_url 153 3])"
proof -
  let ?t1 = "Inr (JList [JDict [(JStr ''entryId'', JInt 1)], JDict [(JStr ''entryId'', JInt 2)]])"
  let ?t2 = "Inr (JList [JDict [(JStr ''entryId'', JInt 2)]])"
  let ?o1 = "Inr (JList [JDict [(JStr ''entryId'', JInt 1)]])"
  let ?o2 = "Inr (JList [JDict [(JStr ''entryId'', JInt 2), (JStr ''stageId'', JInt 0)]])"
  have r1: "run_requests stub_get [] (map (stage_times_url 153) [1, 2]) =
      ([?t1, ?t2], [stage_times_url 153 1, stage_times_url 153 2])"
    by code_simp
  have l1: "list_all list_response [?t1, ?t2 :: error + json]" by code_simp
  have c1: "concat (map body_list [?t1, ?t2 :: error + json]) =
      [JDict [(JStr ''entryId'', JInt 1)], JDict [(JStr ''entryId'', JInt 2)],
       JDict [(JStr ''entryId'', JInt 2)]]"
    by code_simp
  have r2: "run_requests stub_get [] (map (overall_url 153) [1, 2]) =
      ([?o1, ?o2], [overall_url 153 1, overall_url 153 2])"
    by code_simp
  have l2: "list_all records_response [?o1, ?o2 :: error + json]" by code_simp
  have c2: "concat (map (\<lambda>(stage, r). map (stamped stage) (body_list r))
                 (zip [1, 2] [?o1, ?o2 :: error + json])) =
      [JDict [(JStr ''entryId'', JInt 1), (JStr ''stageId'', JInt 1)],
       JDict [(JStr ''entryId'', JInt 2), (JStr ''stageId'', JInt 2)]]"
    by code_simp
  have r3: "run_requests stub_get [] (map (stage_times_url 153) (take (Suc 1) [1, 3, 2])) =
      ([?t1, Inl RequestError], [stage_times_url 153 1, stage_times_url 153 3])"
    by code_simp
  have l3: "list_all succeeds (take 1 [?t1, Inl RequestError :: error + json])" by code_simp
  have r4: "run_requests stub_get [] (map (overall_url 153) (take (Suc 1) [1, 3, 2])) =
      ([?o1, Inl RequestError], [overall_url 153 1, overall_url 153 3])"
    by code_simp
  have l4: "list_all records_response (take 1 [?o1, Inl RequestError :: error + json])"
    by code_simp
  note t12 = multi_stage_concat_or_abort
    [where get = stub_get and w = "[]" and eventId = 153 and stageList = "[1, 2]"]
  note t132 = multi_stage_concat_or_abort
    [where get = stub_get and w = "[]" and eventId = 153 and stageList = "[1, 3, 2]" and k = 1]
  from t12 r1 l1 have a: "getMultipleStageTimes stub_get 153 [1, 2] [] =
      (Inr (concat (map body_list [?t1, ?t2])), [stage_times_url 153 1, stage_times_url 153 2])"
    by blast
  from t12 r2 l2 have b: "getMultipleOverall stub_get 153 [1, 2] [] =
      (Inr (concat (map (\<lambda>(stage, r). map (stamped stage) (body_list r))
                 (zip [1, 2] [?o1, ?o2]))), [overall_url 153 1, overall_url 153 2])"
    by blast
  have n: "[?t1, Inl RequestError :: error + json] ! 1 = Inl RequestError"
    "[?o1, Inl RequestError :: error + json] ! 1 = Inl RequestError"
    "(1::nat) < length [1, 3, 2 :: int]" by simp_all
  from t132 r3 l3 n have c: "getMultipleStageTimes stub_get 153 [1, 3, 2] [] =
      (Inl RequestError, [stage_times_url 153 1, stage_times_url 153 3])"
    by blast
  from t132 r4 l4 n have d: "getMultipleOverall stub_get 153 [1, 3, 2] [] =
      (Inl RequestError, [overall_url 153 1, overall_url 153 3])"
    by blast
  from a b c d show ?thesis by (simp only: c1 c2 simp_thms)
qed

end
